theory Spec2Isabelle
  imports Complex_Main "HOL-Library.Product_Lexorder" "HOL-Library.Multiset"
begin

section \<open>Data model of the editing delegate\<close>

text \<open>
  The embedding follows \<^verbatim>\<open>lib/gaupol/base/delegates/edit.py\<close> (the editing delegate) and
  \<^verbatim>\<open>lib/gaupol/base/tags/converter.py\<close> (the tag converter).

  A project owns four parallel lists: \<^verbatim>\<open>times\<close>, \<^verbatim>\<open>frames\<close>, \<^verbatim>\<open>main_texts\<close> and
  \<^verbatim>\<open>tran_texts\<close>. A position is a three-element list \<^verbatim>\<open>[show, hide, duration]\<close>, modelled as
  a triple; Python compares such lists lexicographically, which is the order of
  nested pairs. Time values are strings in the source; only their equality and their
  order are used by the delegate, so they are values of any linearly ordered type \<open>'t\<close>.
  Frames are Python integers. Row indices are natural numbers.
\<close>

datatype col = SHOW | HIDE | DURN

datatype mode = TIME | FRAME

datatype document = MAIN | TRAN

datatype register = DO | UNDO | REDO

datatype py_error = IndexError | ValueError

type_synonym 'a triple = "'a \<times> 'a \<times> 'a"

fun get_col :: "col \<Rightarrow> 'a triple \<Rightarrow> 'a" where
  "get_col SHOW (s, h, d) = s"
| "get_col HIDE (s, h, d) = h"
| "get_col DURN (s, h, d) = d"

fun set_col :: "col \<Rightarrow> 'a \<Rightarrow> 'a triple \<Rightarrow> 'a triple" where
  "set_col SHOW v (s, h, d) = (v, h, d)"
| "set_col HIDE v (s, h, d) = (s, v, d)"
| "set_col DURN v (s, h, d) = (s, h, v)"

text \<open>
  The calculator \<^verbatim>\<open>self.calc\<close> is a collaborator that is not part of the delegate; its
  functions are parameters. Seconds are Python floats. A float is a real number, but
  the sum, the difference, the product and the quotient of two floats are rounded to a
  float again, so they are not the operations of the reals: the four operations that
  \<^verbatim>\<open>_insert_blank\<close> applies to seconds are parameters as well, kept in the same record.
\<close>

record 't calc =
  time_to_frame :: "'t \<Rightarrow> int"
  frame_to_time :: "int \<Rightarrow> 't"
  get_time_duration :: "'t \<Rightarrow> 't \<Rightarrow> 't"
  get_frame_duration :: "int \<Rightarrow> int \<Rightarrow> int"
  add_times :: "'t \<Rightarrow> 't \<Rightarrow> 't"
  time_to_seconds :: "'t \<Rightarrow> real"
  seconds_to_time :: "real \<Rightarrow> 't"
  float_add :: "real \<Rightarrow> real \<Rightarrow> real"
  float_sub :: "real \<Rightarrow> real \<Rightarrow> real"
  float_mul :: "real \<Rightarrow> real \<Rightarrow> real"
  float_div :: "real \<Rightarrow> real \<Rightarrow> real"

text \<open>
  A revert method together with its arguments: what an editing method hands to
  \<^verbatim>\<open>register_action\<close> as \<^verbatim>\<open>revert_method\<close> and \<^verbatim>\<open>revert_args\<close>.
\<close>

datatype 't revert_call =
    Remove_subtitles "nat list"
  | Insert_subtitles "nat list" "'t triple list" "int triple list" "string list" "string list"
  | Replace_texts "nat list" document "string list"
  | Replace_both_texts "nat list \<times> nat list" "string list \<times> string list"
  | Set_text nat document string
  | Set_time nat col 't
  | Set_frame nat col int

text \<open>
  The keyword arguments of \<^verbatim>\<open>register_action\<close>. A grouped action carries the revert
  calls of its members, the most recently registered first.
\<close>

record 't action =
  docs :: "document list"
  description :: string
  reverts :: "'t revert_call list"
  inserted_rows :: "nat list"
  removed_rows :: "nat list"
  updated_rows :: "nat list"
  updated_positions :: "nat list"
  updated_main_texts :: "nat list"
  updated_tran_texts :: "nat list"

record 't project =
  times_a :: "'t triple list"
  frames :: "int triple list"
  main_texts :: "string list"
  tran_texts :: "string list"
  main_file :: "mode option"
  framerate :: real
  clipboard :: "string option list"
  undoables :: "'t action list"
  redoables :: "'t action list"
  blocked :: "register list"

definition new_action :: "document list \<Rightarrow> string \<Rightarrow> 't revert_call \<Rightarrow> 't action" where
  "new_action ds descr call =
     \<lparr>docs = ds, description = descr, reverts = [call], inserted_rows = [],
      removed_rows = [], updated_rows = [], updated_positions = [],
      updated_main_texts = [], updated_tran_texts = []\<rparr>"

section \<open>The action register\<close>

text \<open>
  Modelled from the spec: \<^verbatim>\<open>register_action\<close>, \<^verbatim>\<open>group_actions\<close>,
  \<^verbatim>\<open>set_action_description\<close>, \<^verbatim>\<open>block\<close>, \<^verbatim>\<open>unblock\<close>, \<^verbatim>\<open>undo\<close> and \<^verbatim>\<open>redo\<close> belong to
  the action delegate, which is not among the source files. The spec (4.2): registering
  pushes a new action atop the undo stack and clears the redo stack unless the caller
  has suppressed signal emission; an action registered while undoing is the emitted
  inverse and goes to the redo stack, one registered while redoing goes back to the
  undo stack.
\<close>

definition register_action :: "register \<Rightarrow> 't action \<Rightarrow> 't project \<Rightarrow> 't project" where
  "register_action reg a s =
     (case reg of
        DO \<Rightarrow> s\<lparr>undoables := a # undoables s,
                 redoables := (if DO \<in> set (blocked s) then redoables s else [])\<rparr>
      | UNDO \<Rightarrow> s\<lparr>redoables := a # redoables s\<rparr>
      | REDO \<Rightarrow> s\<lparr>undoables := a # undoables s\<rparr>)"

definition get_mode :: "'t project \<Rightarrow> mode" where
  "get_mode s = (case main_file s of None \<Rightarrow> TIME | Some m \<Rightarrow> m)"

section \<open>List primitives of Python\<close>

text \<open>
  \<^verbatim>\<open>list.insert(i, x)\<close> appends when \<open>i\<close> is beyond the end; \<^verbatim>\<open>list.pop(i)\<close> raises
  \<^verbatim>\<open>IndexError\<close> there, which the callers below check before using \<open>list_pop\<close>.
\<close>

definition list_insert :: "nat \<Rightarrow> 'a \<Rightarrow> 'a list \<Rightarrow> 'a list" where
  "list_insert i x xs = take i xs @ x # drop i xs"

definition list_pop :: "nat \<Rightarrow> 'a list \<Rightarrow> 'a list" where
  "list_pop i xs = take i xs @ drop (Suc i) xs"

text \<open>\<^verbatim>\<open>bisect.bisect_right(a, x)\<close> of the standard library: the loop on \<open>lo\<close> and \<open>hi\<close>.\<close>

function bisect_right_loop :: "('a::linorder) list \<Rightarrow> 'a \<Rightarrow> nat \<Rightarrow> nat \<Rightarrow> nat" where
  "bisect_right_loop a x lo hi =
     (if lo < hi then
        (let mid = (lo + hi) div 2
         in if x < a ! mid then bisect_right_loop a x lo mid
            else bisect_right_loop a x (mid + 1) hi)
      else lo)"
  by pat_completeness auto
termination
  by (relation "measure (\<lambda>(a, x, lo, hi). hi - lo)") auto

declare bisect_right_loop.simps [simp del]

definition bisect_right :: "('a::linorder) list \<Rightarrow> 'a \<Rightarrow> nat" where
  "bisect_right a x = bisect_right_loop a x 0 (length a)"

section \<open>Setting times and frames\<close>

definition set_durations :: "'t calc \<Rightarrow> nat \<Rightarrow> 't project \<Rightarrow> 't project" where
  "set_durations calc row s =
     (let t = times_a s ! row;
          s1 = s\<lparr>times_a := (times_a s)[row :=
                 set_col DURN (get_time_duration calc (get_col SHOW t) (get_col HIDE t)) t]\<rparr>;
          f = frames s1 ! row
      in s1\<lparr>frames := (frames s1)[row :=
                 set_col DURN (get_frame_duration calc (get_col SHOW f) (get_col HIDE f)) f]\<rparr>)"

definition set_hides :: "'t calc \<Rightarrow> nat \<Rightarrow> 't project \<Rightarrow> 't project" where
  "set_hides calc row s =
     (let t = times_a s ! row;
          s1 = s\<lparr>times_a := (times_a s)[row :=
                 set_col HIDE (add_times calc (get_col SHOW t) (get_col DURN t)) t]\<rparr>;
          f = frames s1 ! row
      in s1\<lparr>frames := (frames s1)[row :=
                 set_col HIDE (get_col SHOW f + get_col DURN f) f]\<rparr>)"

text \<open>
  \<^verbatim>\<open>_sort_data\<close>: the new index of \<open>row\<close> is found in the positions of the mode, with
  the row itself left out; the four lists are moved only when the index differs.
  \<^verbatim>\<open>pop(row)\<close> raises on a list that is too short.
\<close>

definition new_index :: "('a::linorder) list \<Rightarrow> nat \<Rightarrow> nat" where
  "new_index positions row =
     bisect_right (take row positions @ drop (row + 1) positions) (positions ! row)"

definition move_entry :: "nat \<Rightarrow> nat \<Rightarrow> 'a list \<Rightarrow> 'a list" where
  "move_entry row new_row entry = list_insert new_row (entry ! row) (list_pop row entry)"

definition sort_data :: "nat \<Rightarrow> 't::linorder project \<Rightarrow> py_error + ('t project \<times> nat)" where
  "sort_data row s =
     (if (case get_mode s of TIME \<Rightarrow> length (times_a s) \<le> row
                            | FRAME \<Rightarrow> length (frames s) \<le> row)
      then Inl IndexError
      else
        (let new_row = (case get_mode s of
                          TIME \<Rightarrow> new_index (times_a s) row
                        | FRAME \<Rightarrow> new_index (frames s) row)
         in if new_row \<noteq> row then
              (if length (times_a s) \<le> row \<or> length (frames s) \<le> row
                  \<or> length (main_texts s) \<le> row \<or> length (tran_texts s) \<le> row
               then Inl IndexError
               else Inr (s\<lparr>times_a := move_entry row new_row (times_a s),
                           frames := move_entry row new_row (frames s),
                           main_texts := move_entry row new_row (main_texts s),
                           tran_texts := move_entry row new_row (tran_texts s)\<rparr>, new_row))
            else Inr (s, new_row)))"

text \<open>
  \<^verbatim>\<open>set_time\<close> and \<^verbatim>\<open>set_frame\<close>. Reading \<^verbatim>\<open>self.times[row]\<close> or \<^verbatim>\<open>self.frames[row]\<close>
  beyond the end raises \<^verbatim>\<open>IndexError\<close>. When the column is not \<^verbatim>\<open>SHOW\<close> the source
  leaves \<^verbatim>\<open>revert_row = row\<close>, which is the case \<open>new_row = row\<close> below.
\<close>

definition set_time ::
  "'t::linorder calc \<Rightarrow> nat \<Rightarrow> col \<Rightarrow> 't \<Rightarrow> register \<Rightarrow> 't project \<Rightarrow>
   py_error + ('t project \<times> nat)" where
  "set_time calc row c v reg s =
     (if length (times_a s) \<le> row then Inl IndexError
      else if v = get_col c (times_a s ! row) then Inr (s, row)
      else if length (frames s) \<le> row then Inl IndexError
      else
        (let revert_method = (case get_mode s of
                 TIME \<Rightarrow> (\<lambda>revert_row. Set_time revert_row c (get_col c (times_a s ! row)))
               | FRAME \<Rightarrow> (\<lambda>revert_row. Set_frame revert_row c (get_col c (frames s ! row))));
             s1 = s\<lparr>times_a := (times_a s)[row := set_col c v (times_a s ! row)],
                    frames := (frames s)[row :=
                                set_col c (time_to_frame calc v) (frames s ! row)]\<rparr>;
             s2 = (if c = SHOW \<or> c = HIDE then set_durations calc row s1
                   else set_hides calc row s1)
         in case (if c = SHOW then sort_data row s2 else Inr (s2, row)) of
              Inl e \<Rightarrow> Inl e
            | Inr (s3, new_row) \<Rightarrow>
                Inr (register_action reg
                       ((new_action [MAIN] ''Editing time'' (revert_method new_row))
                          \<lparr>updated_rows :=
                             (if new_row \<noteq> row
                              then [min row new_row ..< max row new_row + 1] else []),
                           updated_positions := (if new_row \<noteq> row then [] else [row])\<rparr>)
                       s3, new_row)))"

definition set_frame ::
  "'t::linorder calc \<Rightarrow> nat \<Rightarrow> col \<Rightarrow> int \<Rightarrow> register \<Rightarrow> 't project \<Rightarrow>
   py_error + ('t project \<times> nat)" where
  "set_frame calc row c v reg s =
     (if length (frames s) \<le> row then Inl IndexError
      else if v = get_col c (frames s ! row) then Inr (s, row)
      else if length (times_a s) \<le> row then Inl IndexError
      else
        (let revert_method = (case get_mode s of
                 TIME \<Rightarrow> (\<lambda>revert_row. Set_time revert_row c (get_col c (times_a s ! row)))
               | FRAME \<Rightarrow> (\<lambda>revert_row. Set_frame revert_row c (get_col c (frames s ! row))));
             s1 = s\<lparr>frames := (frames s)[row := set_col c v (frames s ! row)],
                    times_a := (times_a s)[row :=
                                set_col c (frame_to_time calc v) (times_a s ! row)]\<rparr>;
             s2 = (if c = SHOW \<or> c = HIDE then set_durations calc row s1
                   else set_hides calc row s1)
         in case (if c = SHOW then sort_data row s2 else Inr (s2, row)) of
              Inl e \<Rightarrow> Inl e
            | Inr (s3, new_row) \<Rightarrow>
                Inr (register_action reg
                       ((new_action [MAIN] ''Editing frame'' (revert_method new_row))
                          \<lparr>updated_rows :=
                             (if new_row \<noteq> row
                              then [min row new_row ..< max row new_row + 1] else []),
                           updated_positions := (if new_row \<noteq> row then [] else [row])\<rparr>)
                       s3, new_row)))"

section \<open>Inserting and removing subtitles\<close>

text \<open>
  The four \<^verbatim>\<open>insert(row, ...)\<close> lines that \<^verbatim>\<open>_insert_blank\<close> (twice) and
  \<^verbatim>\<open>_insert_data\<close> share.
\<close>

definition insert_row ::
  "nat \<Rightarrow> 't triple \<Rightarrow> int triple \<Rightarrow> string \<Rightarrow> string \<Rightarrow> 't project \<Rightarrow> 't project" where
  "insert_row row t f m tr s =
     s\<lparr>times_a := list_insert row t (times_a s),
       frames := list_insert row f (frames s),
       main_texts := list_insert row m (main_texts s),
       tran_texts := list_insert row tr (tran_texts s)\<rparr>"

text \<open>Python 2: \<^verbatim>\<open>int(round(x, 0))\<close> rounds halves away from zero.\<close>

definition py_round :: "real \<Rightarrow> int" where
  "py_round x = (if 0 \<le> x then \<lfloor>x + 1 / 2\<rfloor> else \<lceil>x - 1 / 2\<rceil>)"

text \<open>
  \<^verbatim>\<open>_insert_blank\<close>. \<^verbatim>\<open>min(rows)\<close> raises \<^verbatim>\<open>ValueError\<close> on an empty list. The optimal
  duration is the integer 3. In frame mode the interval is divided by the integer
  division of Python 2, which rounds down as \<open>div\<close> does. In time mode the start and
  the end are floats (\<^verbatim>\<open>time_to_seconds\<close>) and the interval is divided as a float; the
  start is the integer 0 at row 0 and the duration is the integer 3 at the end of the
  project. An operation with a float operand is the float operation of the record,
  the integer operand converted; where both operands are integers (\<^verbatim>\<open>i * duration\<close>
  at the end of the project, and the sum as well when the project is empty) the
  arithmetic is exact.
\<close>

definition insert_blank :: "'t calc \<Rightarrow> nat list \<Rightarrow> 't project \<Rightarrow> py_error + 't project" where
  "insert_blank calc rows s =
     (if rows = [] then Inl ValueError
      else
        (let start_row = Min (set rows);
             amount = length rows
         in case get_mode s of
              TIME \<Rightarrow>
                if (0 < start_row \<and> length (times_a s) \<le> start_row - 1) then Inl IndexError
                else
                  (let start = (if 0 < start_row
                                then time_to_seconds calc
                                       (get_col HIDE (times_a s ! (start_row - 1)))
                                else 0);
                       duration = (if start_row < length (times_a s)
                                   then float_div calc
                                          (float_sub calc
                                             (time_to_seconds calc
                                                (get_col SHOW (times_a s ! start_row))) start)
                                          (real amount)
                                   else 3);
                       product = (\<lambda>k. if start_row < length (times_a s)
                                      then float_mul calc (real k) duration
                                      else real (k * 3));
                       seconds = (\<lambda>k. if 0 < start_row \<or> start_row < length (times_a s)
                                      then float_add calc start (product k)
                                      else product k)
                   in Inr (fold (\<lambda>i s'.
                         (let show_time = seconds_to_time calc (seconds i);
                              hide_time = seconds_to_time calc (seconds (i + 1));
                              durn_time = get_time_duration calc show_time hide_time;
                              show_frame = time_to_frame calc show_time;
                              hide_frame = time_to_frame calc hide_time;
                              durn_frame = get_frame_duration calc show_frame hide_frame
                          in insert_row (start_row + i) (show_time, hide_time, durn_time)
                               (show_frame, hide_frame, durn_frame) [] [] s'))
                       [0 ..< amount] s))
            | FRAME \<Rightarrow>
                if (0 < start_row \<and> length (frames s) \<le> start_row - 1)
                   \<or> (start_row < length (times_a s) \<and> length (frames s) \<le> start_row)
                then Inl IndexError
                else
                  (let start = (if 0 < start_row
                                then get_col HIDE (frames s ! (start_row - 1)) else 0);
                       duration = (if start_row < length (times_a s)
                                   then (get_col SHOW (frames s ! start_row) - start)
                                        div int amount
                                   else py_round (float_mul calc (framerate s) 3))
                   in Inr (fold (\<lambda>i s'.
                         (let show_frame = start + int i * duration;
                              hide_frame = start + (int i + 1) * duration;
                              durn_frame = get_frame_duration calc show_frame hide_frame;
                              show_time = frame_to_time calc show_frame;
                              hide_time = frame_to_time calc hide_frame;
                              durn_time = get_time_duration calc show_time hide_time
                          in insert_row (start_row + i) (show_time, hide_time, durn_time)
                               (show_frame, hide_frame, durn_frame) [] [] s'))
                       [0 ..< amount] s))))"

text \<open>
  \<^verbatim>\<open>_insert_data\<close>: \<^verbatim>\<open>times[i]\<close> and the other three are read in step with \<^verbatim>\<open>rows\<close>;
  a data list shorter than \<^verbatim>\<open>rows\<close> raises \<^verbatim>\<open>IndexError\<close>.
\<close>

fun insert_data ::
  "nat list \<Rightarrow> 't triple list \<Rightarrow> int triple list \<Rightarrow> string list \<Rightarrow> string list \<Rightarrow>
   't project \<Rightarrow> py_error + 't project" where
  "insert_data [] ts fs ms trs s = Inr s"
| "insert_data (row # rows) (t # ts) (f # fs) (m # ms) (tr # trs) s =
     insert_data rows ts fs ms trs (insert_row row t f m tr s)"
| "insert_data (row # rows) ts fs ms trs s = Inl IndexError"

definition insert_subtitles ::
  "'t calc \<Rightarrow> nat list \<Rightarrow> 't triple list option \<Rightarrow> int triple list option \<Rightarrow>
   string list option \<Rightarrow> string list option \<Rightarrow> register \<Rightarrow> 't project \<Rightarrow>
   py_error + 't project" where
  "insert_subtitles calc rows0 times_o frames_o main_o tran_o reg s =
     (let rows = sort rows0
      in case (case (times_o, frames_o, main_o, tran_o) of
                 (Some ts, Some fs, Some ms, Some trs) \<Rightarrow> insert_data rows ts fs ms trs s
               | _ \<Rightarrow> insert_blank calc rows s) of
           Inl e \<Rightarrow> Inl e
         | Inr s1 \<Rightarrow>
             Inr (register_action reg
                    ((new_action [MAIN, TRAN] ''Inserting subtitles'' (Remove_subtitles rows))
                       \<lparr>inserted_rows := rows\<rparr>) s1))"

text \<open>
  \<^verbatim>\<open>remove_subtitles\<close>: the loop over \<^verbatim>\<open>reversed(rows)\<close> pops each row from the four
  lists and puts the popped entries at the front of the four collected lists.
\<close>

fun remove_loop ::
  "nat list \<Rightarrow> 't triple list \<times> int triple list \<times> string list \<times> string list \<Rightarrow>
   't project \<Rightarrow>
   py_error + (('t triple list \<times> int triple list \<times> string list \<times> string list) \<times> 't project)"
  where
  "remove_loop [] acc s = Inr (acc, s)"
| "remove_loop (row # rows) (ts, fs, ms, trs) s =
     (if length (times_a s) \<le> row \<or> length (frames s) \<le> row
         \<or> length (main_texts s) \<le> row \<or> length (tran_texts s) \<le> row
      then Inl IndexError
      else remove_loop rows
             (times_a s ! row # ts, frames s ! row # fs,
              main_texts s ! row # ms, tran_texts s ! row # trs)
             (s\<lparr>times_a := list_pop row (times_a s),
                frames := list_pop row (frames s),
                main_texts := list_pop row (main_texts s),
                tran_texts := list_pop row (tran_texts s)\<rparr>))"

definition remove_subtitles ::
  "nat list \<Rightarrow> register \<Rightarrow> 't project \<Rightarrow> py_error + 't project" where
  "remove_subtitles rows0 reg s =
     (let rows = sort rows0
      in case remove_loop (rev rows) ([], [], [], []) s of
           Inl e \<Rightarrow> Inl e
         | Inr ((ts, fs, ms, trs), s1) \<Rightarrow>
             Inr (register_action reg
                    ((new_action [MAIN, TRAN] ''Removing subtitles''
                        (Insert_subtitles rows ts fs ms trs))
                       \<lparr>removed_rows := rows\<rparr>) s1))"

text \<open>
  The value of a call of \<^verbatim>\<open>remove_subtitles\<close>. The method has no \<^verbatim>\<open>return\<close> statement:
  a call that completes returns \<^verbatim>\<open>None\<close>, whatever it removed. The four collected
  lists leave the method only as \<^verbatim>\<open>revert_args\<close> of the registered action.
\<close>

definition remove_subtitles_value ::
  "nat list \<Rightarrow> register \<Rightarrow> 't project \<Rightarrow>
   py_error + ('t triple list \<times> int triple list \<times> string list \<times> string list) option"
  where
  "remove_subtitles_value rows0 reg s =
     (case remove_subtitles rows0 reg s of Inl e \<Rightarrow> Inl e | Inr s1 \<Rightarrow> Inr None)"

section \<open>Replacing and setting texts\<close>

text \<open>
  The loop \<^verbatim>\<open>for i, row in enumerate(rows)\<close> of \<^verbatim>\<open>replace_texts\<close> and
  \<^verbatim>\<open>replace_both_texts\<close>: the original text is appended to \<^verbatim>\<open>orig_texts\<close>, then the
  new text is stored. Both reads raise \<^verbatim>\<open>IndexError\<close> out of range.
\<close>

fun replace_loop ::
  "nat list \<Rightarrow> string list \<Rightarrow> string list \<Rightarrow> string list \<Rightarrow>
   py_error + (string list \<times> string list)" where
  "replace_loop [] new_texts texts orig_texts = Inr (texts, orig_texts)"
| "replace_loop (row # rows) new_texts texts orig_texts =
     (if length texts \<le> row then Inl IndexError
      else case new_texts of
             [] \<Rightarrow> Inl IndexError
           | v # vs \<Rightarrow> replace_loop rows vs (texts[row := v]) (orig_texts @ [texts ! row]))"

definition replace_texts ::
  "nat list \<Rightarrow> document \<Rightarrow> string list \<Rightarrow> register \<Rightarrow> 't project \<Rightarrow> py_error + 't project"
  where
  "replace_texts rows doc new_texts reg s =
     (case replace_loop rows new_texts
             (case doc of MAIN \<Rightarrow> main_texts s | TRAN \<Rightarrow> tran_texts s) [] of
        Inl e \<Rightarrow> Inl e
      | Inr (texts, orig_texts) \<Rightarrow>
          Inr (register_action reg
                 ((new_action [doc] ''Replacing texts'' (Replace_texts rows doc orig_texts))
                    \<lparr>updated_main_texts := (case doc of MAIN \<Rightarrow> rows | TRAN \<Rightarrow> []),
                     updated_tran_texts := (case doc of MAIN \<Rightarrow> [] | TRAN \<Rightarrow> rows)\<rparr>)
                 (case doc of MAIN \<Rightarrow> s\<lparr>main_texts := texts\<rparr>
                            | TRAN \<Rightarrow> s\<lparr>tran_texts := texts\<rparr>)))"

definition replace_both_texts ::
  "nat list \<times> nat list \<Rightarrow> string list \<times> string list \<Rightarrow> register \<Rightarrow> 't project \<Rightarrow>
   py_error + 't project" where
  "replace_both_texts rows new_texts reg s =
     (case replace_loop (fst rows) (fst new_texts) (main_texts s) [] of
        Inl e \<Rightarrow> Inl e
      | Inr (new_mains, orig_main_texts) \<Rightarrow>
          (case replace_loop (snd rows) (snd new_texts) (tran_texts s) [] of
             Inl e \<Rightarrow> Inl e
           | Inr (new_trans, orig_tran_texts) \<Rightarrow>
               Inr (register_action reg
                      ((new_action [MAIN, TRAN] ''Replacing texts''
                          (Replace_both_texts rows (orig_main_texts, orig_tran_texts)))
                         \<lparr>updated_main_texts := fst rows, updated_tran_texts := snd rows\<rparr>)
                      (s\<lparr>main_texts := new_mains, tran_texts := new_trans\<rparr>))))"

text \<open>
  \<^verbatim>\<open>set_text\<close> stores the value first and returns without registering when the value is
  the original one.
\<close>

definition set_text ::
  "nat \<Rightarrow> document \<Rightarrow> string \<Rightarrow> register \<Rightarrow> 't project \<Rightarrow> py_error + 't project" where
  "set_text row doc v reg s =
     (if length (case doc of MAIN \<Rightarrow> main_texts s | TRAN \<Rightarrow> tran_texts s) \<le> row
      then Inl IndexError
      else
        (let orig_value = (case doc of MAIN \<Rightarrow> main_texts s | TRAN \<Rightarrow> tran_texts s) ! row;
             s1 = (case doc of MAIN \<Rightarrow> s\<lparr>main_texts := (main_texts s)[row := v]\<rparr>
                             | TRAN \<Rightarrow> s\<lparr>tran_texts := (tran_texts s)[row := v]\<rparr>)
         in if v = orig_value then Inr s1
            else Inr (register_action reg
                        ((new_action [doc] ''Editing text'' (Set_text row doc orig_value))
                           \<lparr>updated_main_texts := (case doc of MAIN \<Rightarrow> [row] | TRAN \<Rightarrow> []),
                            updated_tran_texts := (case doc of MAIN \<Rightarrow> [] | TRAN \<Rightarrow> [row])\<rparr>)
                        s1)))"

section \<open>Grouping, undo and redo\<close>

text \<open>
  Modelled from the spec: \<^verbatim>\<open>block\<close> and \<^verbatim>\<open>unblock\<close> of the signal that belongs to a
  register (\<^verbatim>\<open>get_signal\<close>), absent from the source files. The spec (5): grouped actions
  suppress notification until the group completes.
\<close>

definition block :: "register \<Rightarrow> 't project \<Rightarrow> 't project" where
  "block reg s = s\<lparr>blocked := reg # blocked s\<rparr>"

definition unblock :: "register \<Rightarrow> 't project \<Rightarrow> 't project" where
  "unblock reg s = s\<lparr>blocked := remove1 reg (blocked s)\<rparr>"

text \<open>
  Modelled from the spec: \<^verbatim>\<open>group_actions(register, n, description)\<close> and
  \<^verbatim>\<open>set_action_description(register, description)\<close>, absent from the source files. The
  spec (4.2): grouping merges the top \<open>n\<close> actions of the stack into a single action
  whose description is the caller's label and whose undo replays the \<open>n\<close> reverts in
  reverse order, that is the most recently registered first. The stack is the one that
  \<open>register_action\<close> pushes to for the register.
\<close>

definition group_actions :: "register \<Rightarrow> nat \<Rightarrow> string \<Rightarrow> 't project \<Rightarrow> 't project" where
  "group_actions reg n descr s =
     (let stack = (case reg of UNDO \<Rightarrow> redoables s | _ \<Rightarrow> undoables s);
          top = take n stack;
          merged = \<lparr>docs = remdups (concat (map docs top)),
                    description = descr,
                    reverts = concat (map reverts top),
                    inserted_rows = concat (map inserted_rows top),
                    removed_rows = concat (map removed_rows top),
                    updated_rows = concat (map updated_rows top),
                    updated_positions = concat (map updated_positions top),
                    updated_main_texts = concat (map updated_main_texts top),
                    updated_tran_texts = concat (map updated_tran_texts top)\<rparr>
      in case reg of
           UNDO \<Rightarrow> s\<lparr>redoables := merged # drop n stack\<rparr>
         | _ \<Rightarrow> s\<lparr>undoables := merged # drop n stack\<rparr>)"

definition set_action_description :: "register \<Rightarrow> string \<Rightarrow> 't project \<Rightarrow> 't project" where
  "set_action_description reg descr s =
     (case reg of
        UNDO \<Rightarrow> (case redoables s of [] \<Rightarrow> s
                  | a # as \<Rightarrow> s\<lparr>redoables := a\<lparr>description := descr\<rparr> # as\<rparr>)
      | _ \<Rightarrow> (case undoables s of [] \<Rightarrow> s
                  | a # as \<Rightarrow> s\<lparr>undoables := a\<lparr>description := descr\<rparr> # as\<rparr>))"

text \<open>
  \<^verbatim>\<open>paste_texts\<close>. \<^verbatim>\<open>amount\<close> is a Python integer and may be negative; \<^verbatim>\<open>range\<close> is
  used only when it is positive.
\<close>

definition paste_texts ::
  "'t calc \<Rightarrow> nat \<Rightarrow> document \<Rightarrow> register \<Rightarrow> 't project \<Rightarrow>
   py_error + ('t project \<times> nat list)" where
  "paste_texts calc start_row doc reg s =
     (let data = clipboard s;
          current_length = length (times_a s);
          amount = int (length data) - (int current_length - int start_row)
      in case (if 0 < amount
               then insert_subtitles calc
                      [current_length ..< current_length + nat amount]
                      None None None None reg (block reg s)
               else Inr s) of
           Inl e \<Rightarrow> Inl e
         | Inr s1 \<Rightarrow>
             (let picked = filter (\<lambda>(i, v). v \<noteq> None) (enumerate 0 data);
                  rows = map (\<lambda>(i, v). start_row + i) picked;
                  new_texts = map (\<lambda>(i, v). the v) picked
              in case replace_texts rows doc new_texts reg s1 of
                   Inl e \<Rightarrow> Inl e
                 | Inr s2 \<Rightarrow>
                     Inr (if 0 < amount
                          then group_actions reg 2 ''Pasting texts'' (unblock reg s2)
                          else set_action_description reg ''Pasting texts'' s2, rows)))"

text \<open>
  Modelled from the spec: the invocation \<^verbatim>\<open>revert_method(*revert_args)\<close> of an action
  and \<^verbatim>\<open>undo\<close>, \<^verbatim>\<open>redo\<close> of the action delegate, absent from the source files. The spec
  (3, 4.2): undo pops the top undo action and invokes its revert operation, which is
  one of the mutating operations and registers a fresh action; the action is consumed
  and replaced by its emitted inverse on the redo stack; redo is symmetric; on an empty
  stack both do nothing. The reverts of a group are replayed as one unit, so the
  actions they register are merged again under the description of the group.
\<close>

definition run_revert ::
  "'t::linorder calc \<Rightarrow> 't revert_call \<Rightarrow> register \<Rightarrow> 't project \<Rightarrow> py_error + 't project"
  where
  "run_revert calc call reg s =
     (case call of
        Remove_subtitles rows \<Rightarrow> remove_subtitles rows reg s
      | Insert_subtitles rows ts fs ms trs \<Rightarrow>
          insert_subtitles calc rows (Some ts) (Some fs) (Some ms) (Some trs) reg s
      | Replace_texts rows doc texts \<Rightarrow> replace_texts rows doc texts reg s
      | Replace_both_texts rows texts \<Rightarrow> replace_both_texts rows texts reg s
      | Set_text row doc v \<Rightarrow> set_text row doc v reg s
      | Set_time row c v \<Rightarrow>
          (case set_time calc row c v reg s of Inl e \<Rightarrow> Inl e | Inr (s1, r) \<Rightarrow> Inr s1)
      | Set_frame row c v \<Rightarrow>
          (case set_frame calc row c v reg s of Inl e \<Rightarrow> Inl e | Inr (s1, r) \<Rightarrow> Inr s1))"

fun run_reverts ::
  "'t::linorder calc \<Rightarrow> 't revert_call list \<Rightarrow> register \<Rightarrow> 't project \<Rightarrow>
   py_error + 't project" where
  "run_reverts calc [] reg s = Inr s"
| "run_reverts calc (call # calls) reg s =
     (case run_revert calc call reg s of
        Inl e \<Rightarrow> Inl e
      | Inr s1 \<Rightarrow> run_reverts calc calls reg s1)"

definition undo :: "'t::linorder calc \<Rightarrow> 't project \<Rightarrow> py_error + 't project" where
  "undo calc s =
     (case undoables s of
        [] \<Rightarrow> Inr s
      | a # rest \<Rightarrow>
          (case run_reverts calc (reverts a) UNDO (s\<lparr>undoables := rest\<rparr>) of
             Inl e \<Rightarrow> Inl e
           | Inr s1 \<Rightarrow>
               (let k = length (redoables s1) - length (redoables s)
                in Inr (if k = 0 then s1 else group_actions UNDO k (description a) s1))))"

definition redo :: "'t::linorder calc \<Rightarrow> 't project \<Rightarrow> py_error + 't project" where
  "redo calc s =
     (case redoables s of
        [] \<Rightarrow> Inr s
      | a # rest \<Rightarrow>
          (case run_reverts calc (reverts a) REDO (s\<lparr>redoables := rest\<rparr>) of
             Inl e \<Rightarrow> Inl e
           | Inr s1 \<Rightarrow>
               (let k = length (undoables s1) - length (undoables s)
                in Inr (if k = 0 then s1 else group_actions REDO k (description a) s1))))"

section \<open>The tag converter\<close>

text \<open>
  The format classes (\<^verbatim>\<open>gaupol.base.tags.classes\<close>) and the \<^verbatim>\<open>re\<close> module are not part
  of the converter: a format class is a record of its tag tables and its four hook
  functions, \<^verbatim>\<open>re.compile\<close> and the \<^verbatim>\<open>sub\<close> method of a compiled expression are
  parameters. An entry of a tag table is \<^verbatim>\<open>(pattern, flags, replacement)\<close> with an
  optional fourth element, the count.
\<close>

record 'fl format_class =
  decode_tags :: "(string \<times> 'fl \<times> string \<times> int option) list"
  encode_tags :: "(string \<times> 'fl \<times> string \<times> int option) list"
  pre_decode :: "string \<Rightarrow> string"
  post_decode :: "string \<Rightarrow> string"
  pre_encode :: "string \<Rightarrow> string"
  post_encode :: "string \<Rightarrow> string"

record 'rx tag_converter =
  from_regexs :: "('rx \<times> string \<times> int) list"
  to_regexs :: "('rx \<times> string \<times> int) list"
  conv_pre_decode :: "string \<Rightarrow> string"
  conv_post_decode :: "string \<Rightarrow> string"
  conv_pre_encode :: "string \<Rightarrow> string"
  conv_post_encode :: "string \<Rightarrow> string"

text \<open>\<^verbatim>\<open>TagConverter.__init__\<close>: the count is 1 when the entry has no fourth element.\<close>

definition compile_entry ::
  "(string \<Rightarrow> 'fl \<Rightarrow> 'rx) \<Rightarrow> string \<times> 'fl \<times> string \<times> int option \<Rightarrow> 'rx \<times> string \<times> int" where
  "compile_entry re_compile entry =
     (case entry of (pattern, flags, repl, count_o) \<Rightarrow>
        (re_compile pattern flags, repl, (case count_o of Some n \<Rightarrow> n | None \<Rightarrow> 1)))"

definition init_tag_converter ::
  "(string \<Rightarrow> 'fl \<Rightarrow> 'rx) \<Rightarrow> 'fl format_class \<Rightarrow> 'fl format_class \<Rightarrow> 'rx tag_converter" where
  "init_tag_converter re_compile from_format to_format =
     \<lparr>from_regexs = map (compile_entry re_compile) (decode_tags from_format),
      to_regexs = map (compile_entry re_compile) (encode_tags to_format),
      conv_pre_decode = pre_decode from_format,
      conv_post_decode = post_decode from_format,
      conv_pre_encode = pre_encode to_format,
      conv_post_encode = post_encode to_format\<rparr>"

text \<open>
  The inner loop \<^verbatim>\<open>for i in range(entry[COUNT])\<close> and the outer loop over the entries
  of \<^verbatim>\<open>convert_tags\<close>. \<^verbatim>\<open>range\<close> of a count below one is empty.
\<close>

fun sub_range :: "(string \<Rightarrow> string) \<Rightarrow> nat \<Rightarrow> string \<Rightarrow> string" where
  "sub_range sub 0 text = text"
| "sub_range sub (Suc n) text = sub_range sub n (sub text)"

fun sub_entries ::
  "('rx \<Rightarrow> string \<Rightarrow> string \<Rightarrow> string) \<Rightarrow> ('rx \<times> string \<times> int) list \<Rightarrow> string \<Rightarrow> string"
  where
  "sub_entries re_sub [] text = text"
| "sub_entries re_sub ((regex, repl, n) # entries) text =
     sub_entries re_sub entries (sub_range (re_sub regex repl) (nat n) text)"

text \<open>\<^verbatim>\<open>convert_tags\<close>: \<^verbatim>\<open>not text\<close> holds of \<^verbatim>\<open>None\<close> and of the empty string.\<close>

definition convert_tags ::
  "('rx \<Rightarrow> string \<Rightarrow> string \<Rightarrow> string) \<Rightarrow> 'rx tag_converter \<Rightarrow> string option \<Rightarrow> string option"
  where
  "convert_tags re_sub self text_o =
     (case text_o of
        None \<Rightarrow> None
      | Some text \<Rightarrow>
          if text = [] then Some text
          else
            (let t1 = conv_pre_decode self text;
                 t2 = sub_entries re_sub (from_regexs self) t1;
                 t3 = conv_post_decode self t2;
                 t4 = conv_pre_encode self t3;
                 t5 = sub_entries re_sub (to_regexs self) t4;
                 t6 = conv_post_encode self t5
             in Some t6))"

text \<open>
  The conversion as the specification words it: a composition of the hooks and of the
  two rule pipelines, each rule being its substitution iterated count times, the count
  being 1 when the rule gives none.
\<close>

definition rule_spec ::
  "(string \<Rightarrow> 'fl \<Rightarrow> 'rx) \<Rightarrow> ('rx \<Rightarrow> string \<Rightarrow> string \<Rightarrow> string) \<Rightarrow>
   string \<times> 'fl \<times> string \<times> int option \<Rightarrow> string \<Rightarrow> string" where
  "rule_spec re_compile re_sub rule =
     (case rule of (pattern, flags, repl, count_o) \<Rightarrow>
        (re_sub (re_compile pattern flags) repl) ^^ (nat (case count_o of None \<Rightarrow> 1 | Some n \<Rightarrow> n)))"

definition pipeline_spec ::
  "(string \<Rightarrow> 'fl \<Rightarrow> 'rx) \<Rightarrow> ('rx \<Rightarrow> string \<Rightarrow> string \<Rightarrow> string) \<Rightarrow>
   (string \<times> 'fl \<times> string \<times> int option) list \<Rightarrow> string \<Rightarrow> string" where
  "pipeline_spec re_compile re_sub rules = foldr (\<lambda>rule rest. rest \<circ> rule_spec re_compile re_sub rule) rules id"

definition convert_spec ::
  "(string \<Rightarrow> 'fl \<Rightarrow> 'rx) \<Rightarrow> ('rx \<Rightarrow> string \<Rightarrow> string \<Rightarrow> string) \<Rightarrow>
   'fl format_class \<Rightarrow> 'fl format_class \<Rightarrow> string \<Rightarrow> string" where
  "convert_spec re_compile re_sub from_format to_format =
     post_encode to_format \<circ> pipeline_spec re_compile re_sub (encode_tags to_format)
       \<circ> pre_encode to_format \<circ> post_decode from_format
       \<circ> pipeline_spec re_compile re_sub (decode_tags from_format) \<circ> pre_decode from_format"

section \<open>Notions used to state the properties\<close>

text \<open>
  INV-4 of the specification (the four lists have the same length), the rightmost
  insertion point of a value in a sorted list (the number of entries not above it), and
  the intermediate states of \<^verbatim>\<open>set_time\<close> and \<^verbatim>\<open>set_frame\<close>, named so that the results
  of the two methods can be written down.
\<close>

definition parallel :: "'t project \<Rightarrow> bool" where
  "parallel s \<longleftrightarrow> length (frames s) = length (times_a s)
     \<and> length (main_texts s) = length (times_a s)
     \<and> length (tran_texts s) = length (times_a s)"


definition positions_moved :: "nat \<Rightarrow> nat \<Rightarrow> 't project \<Rightarrow> 't project" where
  "positions_moved row r s =
     s\<lparr>times_a := move_entry row r (times_a s),
       frames := move_entry row r (frames s),
       main_texts := move_entry row r (main_texts s),
       tran_texts := move_entry row r (tran_texts s)\<rparr>"

definition time_written :: "'t calc \<Rightarrow> nat \<Rightarrow> col \<Rightarrow> 't \<Rightarrow> 't project \<Rightarrow> 't project" where
  "time_written calc row c v s =
     (let s1 = s\<lparr>times_a := (times_a s)[row := set_col c v (times_a s ! row)],
                 frames := (frames s)[row := set_col c (time_to_frame calc v) (frames s ! row)]\<rparr>
      in if c = SHOW \<or> c = HIDE then set_durations calc row s1 else set_hides calc row s1)"

definition frame_written :: "'t calc \<Rightarrow> nat \<Rightarrow> col \<Rightarrow> int \<Rightarrow> 't project \<Rightarrow> 't project" where
  "frame_written calc row c v s =
     (let s1 = s\<lparr>frames := (frames s)[row := set_col c v (frames s ! row)],
                 times_a := (times_a s)[row := set_col c (frame_to_time calc v) (times_a s ! row)]\<rparr>
      in if c = SHOW \<or> c = HIDE then set_durations calc row s1 else set_hides calc row s1)"

definition resorted_index :: "col \<Rightarrow> nat \<Rightarrow> 't::linorder project \<Rightarrow> nat" where
  "resorted_index c row s =
     (if c = SHOW
      then (case get_mode s of TIME \<Rightarrow> new_index (times_a s) row
                             | FRAME \<Rightarrow> new_index (frames s) row)
      else row)"

definition original_revert :: "nat \<Rightarrow> col \<Rightarrow> nat \<Rightarrow> 't project \<Rightarrow> 't revert_call" where
  "original_revert row c r s =
     (case get_mode s of TIME \<Rightarrow> Set_time r c (get_col c (times_a s ! row))
                       | FRAME \<Rightarrow> Set_frame r c (get_col c (frames s ! row)))"

definition position_action :: "string \<Rightarrow> 't revert_call \<Rightarrow> nat \<Rightarrow> nat \<Rightarrow> 't action" where
  "position_action descr call row r =
     (new_action [MAIN] descr call)
       \<lparr>updated_rows := (if r \<noteq> row then [min row r ..< max row r + 1] else []),
        updated_positions := (if r \<noteq> row then [] else [row])\<rparr>"



text \<open>The project without the rows whose indices are in a set.\<close>

definition rows_removed :: "nat set \<Rightarrow> 't project \<Rightarrow> 't project" where
  "rows_removed S s =
     s\<lparr>times_a := nths (times_a s) (- S),
       frames := nths (frames s) (- S),
       main_texts := nths (main_texts s) (- S),
       tran_texts := nths (tran_texts s) (- S)\<rparr>"

text \<open>
  The frame triple that \<^verbatim>\<open>_insert_blank\<close> derives from a time triple in time mode, and
  the time triple that it derives from a frame triple in frame mode: show and hide
  are converted by the calculator, the duration is taken in the target system.
\<close>

definition frame_image :: "'t calc \<Rightarrow> 't triple \<Rightarrow> int triple" where
  "frame_image calc t =
     (time_to_frame calc (get_col SHOW t), time_to_frame calc (get_col HIDE t),
      get_frame_duration calc (time_to_frame calc (get_col SHOW t))
        (time_to_frame calc (get_col HIDE t)))"

definition time_image :: "'t calc \<Rightarrow> int triple \<Rightarrow> 't triple" where
  "time_image calc f =
     (frame_to_time calc (get_col SHOW f), frame_to_time calc (get_col HIDE f),
      get_time_duration calc (frame_to_time calc (get_col SHOW f))
        (frame_to_time calc (get_col HIDE f)))"

text \<open>
  A frame triple in sync with a time triple within a tolerance of \<open>e\<close> frames: the show
  is that of the image, the hide and the duration are within \<open>e\<close> of those of the image.
  With \<open>e = 0\<close> the frame triple is the image.
\<close>

definition row_in_sync :: "'t calc \<Rightarrow> int \<Rightarrow> 't triple \<Rightarrow> int triple \<Rightarrow> bool" where
  "row_in_sync calc e t f \<longleftrightarrow>
     get_col SHOW f = get_col SHOW (frame_image calc t)
     \<and> \<bar>get_col HIDE f - get_col HIDE (frame_image calc t)\<bar> \<le> e
     \<and> \<bar>get_col DURN f - get_col DURN (frame_image calc t)\<bar> \<le> e"

text \<open>
  The notions of the paste: the text list of a document and the other document, a text
  list with given rows overwritten one after the other, the project with \<open>k\<close> rows
  appended whose texts are blank, the number of rows that the buffer needs beyond the
  end of the project (zero when it fits), the rows whose buffer entry is not \<^verbatim>\<open>None\<close>,
  and the text list in which exactly those rows carry the text of the buffer.
\<close>

definition texts_of :: "document \<Rightarrow> 't project \<Rightarrow> string list" where
  "texts_of doc s = (case doc of MAIN \<Rightarrow> main_texts s | TRAN \<Rightarrow> tran_texts s)"

definition other_document :: "document \<Rightarrow> document" where
  "other_document doc = (case doc of MAIN \<Rightarrow> TRAN | TRAN \<Rightarrow> MAIN)"

definition set_texts :: "document \<Rightarrow> string list \<Rightarrow> 't project \<Rightarrow> 't project" where
  "set_texts doc texts s =
     (case doc of MAIN \<Rightarrow> s\<lparr>main_texts := texts\<rparr> | TRAN \<Rightarrow> s\<lparr>tran_texts := texts\<rparr>)"

fun texts_replaced :: "nat list \<Rightarrow> string list \<Rightarrow> string list \<Rightarrow> string list" where
  "texts_replaced (r # rs) (v # vs) texts = texts_replaced rs vs (texts[r := v])"
| "texts_replaced rs vs texts = texts"

definition rows_appended ::
  "'t triple list \<Rightarrow> int triple list \<Rightarrow> nat \<Rightarrow> 't project \<Rightarrow> 't project" where
  "rows_appended ts fs k s =
     s\<lparr>times_a := times_a s @ ts,
       frames := frames s @ fs,
       main_texts := main_texts s @ replicate k [],
       tran_texts := tran_texts s @ replicate k []\<rparr>"

definition missing_rows :: "nat \<Rightarrow> 't project \<Rightarrow> nat" where
  "missing_rows start_row s = start_row + length (clipboard s) - length (times_a s)"

definition pasted_rows :: "nat \<Rightarrow> string option list \<Rightarrow> nat list" where
  "pasted_rows start_row data =
     map (\<lambda>i. start_row + i) (filter (\<lambda>i. data ! i \<noteq> None) [0 ..< length data])"

definition pasted :: "nat \<Rightarrow> string option list \<Rightarrow> string list \<Rightarrow> string list" where
  "pasted start_row data texts =
     map (\<lambda>j. if start_row \<le> j \<and> j < start_row + length data
               then (case data ! (j - start_row) of Some v \<Rightarrow> v | None \<Rightarrow> texts ! j)
               else texts ! j)
       [0 ..< length texts]"

section \<open>A calculator and a project to run the model on\<close>

text \<open>
  Times in milliseconds and a calculator at 25 frames per second: a frame lasts 40
  milliseconds and a time converts to the nearest frame. Its float operations are the
  exact ones of the reals.
\<close>

definition example_calc :: "nat calc" where
  "example_calc =
     \<lparr>time_to_frame = (\<lambda>t. (int t * 25 + 500) div 1000),
      frame_to_time = (\<lambda>f. nat (f * 40)),
      get_time_duration = (\<lambda>a b. b - a),
      get_frame_duration = (\<lambda>a b. b - a),
      add_times = (\<lambda>a b. a + b),
      time_to_seconds = (\<lambda>t. real t / 1000),
      seconds_to_time = (\<lambda>x. nat (py_round (x * 1000))),
      float_add = (\<lambda>x y. x + y),
      float_sub = (\<lambda>x y. x - y),
      float_mul = (\<lambda>x y. x * y),
      float_div = (\<lambda>x y. x / y)\<rparr>"

definition example_project :: "nat project" where
  "example_project =
     \<lparr>times_a = [(0, 1000, 1000), (2000, 3000, 1000), (4000, 5000, 1000)],
      frames = [(0, 25, 25), (50, 75, 25), (100, 125, 25)],
      main_texts = [''one'', ''two'', ''three''],
      tran_texts = [''eins'', ''zwei'', ''drei''],
      main_file = Some TIME,
      framerate = 25,
      clipboard = [],
      undoables = [],
      redoables = [],
      blocked = []\<rparr>"

text \<open>
  Two subtitles with the same times and different texts, in time mode; and a long
  subtitle that is still shown when the next one starts.
\<close>

definition twins_project :: "nat project" where
  "twins_project =
     \<lparr>times_a = [(0, 1000, 1000), (0, 1000, 1000)],
      frames = [(0, 25, 25), (0, 25, 25)],
      main_texts = [''first'', ''second''],
      tran_texts = [''erste'', ''zweite''],
      main_file = Some TIME,
      framerate = 25,
      clipboard = [],
      undoables = [],
      redoables = [],
      blocked = []\<rparr>"

definition overlap_project :: "nat project" where
  "overlap_project =
     \<lparr>times_a = [(0, 4000, 4000), (400, 800, 400)],
      frames = [(0, 100, 100), (10, 20, 10)],
      main_texts = [''long'', ''short''],
      tran_texts = [''lang'', ''kurz''],
      main_file = Some FRAME,
      framerate = 25,
      clipboard = [],
      undoables = [],
      redoables = [],
      blocked = []\<rparr>"




text \<open>One subtitle that starts between two frames, the frames being the image of the times.\<close>

definition offbeat_project :: "nat project" where
  "offbeat_project =
     \<lparr>times_a = [(2010, 3000, 990)],
      frames = [(50, 75, 25)],
      main_texts = [''only''],
      tran_texts = [''einzig''],
      main_file = Some TIME,
      framerate = 25,
      clipboard = [],
      undoables = [],
      redoables = [],
      blocked = []\<rparr>"

text \<open>The example project with a buffer of three entries, the second of them empty.\<close>

definition clip_project :: "nat project" where
  "clip_project = example_project\<lparr>clipboard := [Some ''uno'', None, Some ''tres'']\<rparr>"

definition example_format :: "unit format_class" where
  "example_format =
     \<lparr>decode_tags = [(''b'', (), ''<b>'', Some 2), (''i'', (), ''<i>'', None)],
      encode_tags = [(''u'', (), ''<u>'', None)],
      pre_decode = (\<lambda>t. t @ ''1''),
      post_decode = (\<lambda>t. t @ ''2''),
      pre_encode = (\<lambda>t. t @ ''3''),
      post_encode = (\<lambda>t. t @ ''4'')\<rparr>"

section \<open>Lists, binary search and the resort\<close>

lemma bisect_right_loop_stop: "\<not> lo < hi \<Longrightarrow> bisect_right_loop a x lo hi = lo"
  by (subst bisect_right_loop.simps) simp

lemma bisect_right_loop_left:
  "lo < hi \<Longrightarrow> x < a ! ((lo + hi) div 2) \<Longrightarrow>
   bisect_right_loop a x lo hi = bisect_right_loop a x lo ((lo + hi) div 2)"
  by (subst bisect_right_loop.simps) (simp add: Let_def)

lemma bisect_right_loop_right:
  "lo < hi \<Longrightarrow> \<not> x < a ! ((lo + hi) div 2) \<Longrightarrow>
   bisect_right_loop a x lo hi = bisect_right_loop a x ((lo + hi) div 2 + 1) hi"
  by (subst bisect_right_loop.simps) (simp add: Let_def)

lemma bisect_right_loop_bounds:
  "lo \<le> hi \<Longrightarrow> lo \<le> bisect_right_loop a x lo hi \<and> bisect_right_loop a x lo hi \<le> hi"
proof (induction a x lo hi rule: bisect_right_loop.induct)
  case (1 a x lo hi)
  show ?case
  proof (cases "lo < hi")
    case False
    then show ?thesis using "1.prems" by (simp add: bisect_right_loop_stop)
  next
    case True
    define mid where "mid = (lo + hi) div 2"
    have m: "lo \<le> mid" "mid < hi" using True by (auto simp: mid_def)
    show ?thesis
    proof (cases "x < a ! mid")
      case less: True
      have "lo \<le> bisect_right_loop a x lo mid \<and> bisect_right_loop a x lo mid \<le> mid"
        using "1.IH"(1) [OF True mid_def less] m by simp
      then show ?thesis
        using bisect_right_loop_left [OF True, of x a] less m by (simp add: mid_def)
    next
      case geq: False
      have "mid + 1 \<le> bisect_right_loop a x (mid + 1) hi
            \<and> bisect_right_loop a x (mid + 1) hi \<le> hi"
        using "1.IH"(2) [OF True mid_def geq] m by simp
      then show ?thesis
        using bisect_right_loop_right [OF True, of x a] geq m by (simp add: mid_def)
    qed
  qed
qed

lemma bisect_right_le: "bisect_right a x \<le> length a"
  using bisect_right_loop_bounds [of 0 "length a" a x] by (simp add: bisect_right_def)

lemma length_list_pop: "i < length xs \<Longrightarrow> length (list_pop i xs) = length xs - 1"
  by (simp add: list_pop_def)

lemma length_list_insert: "length (list_insert i x xs) = Suc (length xs)"
  by (simp add: list_insert_def)

lemma nth_list_insert: "i \<le> length xs \<Longrightarrow> list_insert i x xs ! i = x"
  by (simp add: list_insert_def nth_append)


lemma list_insert_list_pop: "i < length xs \<Longrightarrow> list_insert i (xs ! i) (list_pop i xs) = xs"
  by (simp add: list_insert_def list_pop_def min_def id_take_nth_drop [symmetric])

lemma new_index_less: "row < length ps \<Longrightarrow> new_index ps row < length ps"
  using bisect_right_le [of "take row ps @ drop (row + 1) ps" "ps ! row"]
  by (simp add: new_index_def)

lemma length_move_entry:
  "row < length xs \<Longrightarrow> length (move_entry row r xs) = length xs"
  by (simp add: move_entry_def length_list_insert length_list_pop)

lemma nth_move_entry: "row < length xs \<Longrightarrow> r < length xs \<Longrightarrow> move_entry row r xs ! r = xs ! row"
  by (simp add: move_entry_def nth_list_insert length_list_pop)

lemma move_entry_same: "row < length xs \<Longrightarrow> move_entry row row xs = xs"
  by (simp add: move_entry_def list_insert_list_pop)


lemma positions_moved_same:
  "parallel s \<Longrightarrow> row < length (times_a s) \<Longrightarrow> positions_moved row row s = s"
  by (simp add: positions_moved_def parallel_def move_entry_same)

lemma sort_data_moved:
  assumes "parallel s" "row < length (times_a s)"
  shows "sort_data row s =
         Inr (positions_moved row
                (case get_mode s of TIME \<Rightarrow> new_index (times_a s) row
                                   | FRAME \<Rightarrow> new_index (frames s) row) s,
              (case get_mode s of TIME \<Rightarrow> new_index (times_a s) row
                                 | FRAME \<Rightarrow> new_index (frames s) row))"
  using assms positions_moved_same [OF assms]
  by (auto simp: sort_data_def parallel_def Let_def positions_moved_def split: mode.splits)

lemma set_durations_simps:
  "times_a (set_durations calc row s) =
     (times_a s)[row := set_col DURN (get_time_duration calc (get_col SHOW (times_a s ! row))
                           (get_col HIDE (times_a s ! row))) (times_a s ! row)]"
  "frames (set_durations calc row s) =
     (frames s)[row := set_col DURN (get_frame_duration calc (get_col SHOW (frames s ! row))
                           (get_col HIDE (frames s ! row))) (frames s ! row)]"
  "main_texts (set_durations calc row s) = main_texts s"
  "tran_texts (set_durations calc row s) = tran_texts s"
  "main_file (set_durations calc row s) = main_file s"
  "undoables (set_durations calc row s) = undoables s"
  "redoables (set_durations calc row s) = redoables s"
  "blocked (set_durations calc row s) = blocked s"
  by (simp_all add: set_durations_def Let_def)

lemma set_hides_simps:
  "times_a (set_hides calc row s) =
     (times_a s)[row := set_col HIDE (add_times calc (get_col SHOW (times_a s ! row))
                           (get_col DURN (times_a s ! row))) (times_a s ! row)]"
  "frames (set_hides calc row s) =
     (frames s)[row := set_col HIDE (get_col SHOW (frames s ! row) + get_col DURN (frames s ! row))
                           (frames s ! row)]"
  "main_texts (set_hides calc row s) = main_texts s"
  "tran_texts (set_hides calc row s) = tran_texts s"
  "main_file (set_hides calc row s) = main_file s"
  "undoables (set_hides calc row s) = undoables s"
  "redoables (set_hides calc row s) = redoables s"
  "blocked (set_hides calc row s) = blocked s"
  by (simp_all add: set_hides_def Let_def)

lemma time_written_simps:
  "length (times_a (time_written calc row c v s)) = length (times_a s)"
  "length (frames (time_written calc row c v s)) = length (frames s)"
  "main_texts (time_written calc row c v s) = main_texts s"
  "tran_texts (time_written calc row c v s) = tran_texts s"
  "main_file (time_written calc row c v s) = main_file s"
  "undoables (time_written calc row c v s) = undoables s"
  "redoables (time_written calc row c v s) = redoables s"
  "blocked (time_written calc row c v s) = blocked s"
  by (simp_all add: time_written_def Let_def set_durations_simps set_hides_simps)

lemma frame_written_simps:
  "length (times_a (frame_written calc row c v s)) = length (times_a s)"
  "length (frames (frame_written calc row c v s)) = length (frames s)"
  "main_texts (frame_written calc row c v s) = main_texts s"
  "tran_texts (frame_written calc row c v s) = tran_texts s"
  "main_file (frame_written calc row c v s) = main_file s"
  "undoables (frame_written calc row c v s) = undoables s"
  "redoables (frame_written calc row c v s) = redoables s"
  "blocked (frame_written calc row c v s) = blocked s"
  by (simp_all add: frame_written_def Let_def set_durations_simps set_hides_simps)

lemma parallel_time_written: "parallel (time_written calc row c v s) = parallel s"
  by (simp add: parallel_def time_written_simps)

lemma parallel_frame_written: "parallel (frame_written calc row c v s) = parallel s"
  by (simp add: parallel_def frame_written_simps)

lemma get_mode_written:
  "get_mode (time_written calc row c v s) = get_mode s"
  "get_mode (frame_written calc row c fv s) = get_mode s"
  by (simp_all add: get_mode_def time_written_simps frame_written_simps)

lemma set_time_unfold:
  assumes "row < length (times_a s)" "row < length (frames s)" "v \<noteq> get_col c (times_a s ! row)"
  shows "set_time calc row c v reg s =
         (case (if c = SHOW then sort_data row (time_written calc row c v s)
                else Inr (time_written calc row c v s, row)) of
            Inl e \<Rightarrow> Inl e
          | Inr (s3, new_row) \<Rightarrow>
              Inr (register_action reg
                     (position_action ''Editing time'' (original_revert row c new_row s) row new_row)
                     s3, new_row))"
  using assms
  by (cases "get_mode s")
     (simp_all add: set_time_def time_written_def Let_def position_action_def original_revert_def
        split: sum.split prod.split)

lemma set_time_result:
  assumes "parallel s" "row < length (times_a s)" "v \<noteq> get_col c (times_a s ! row)"
  shows "set_time calc row c v reg s =
         Inr (register_action reg
                (position_action ''Editing time''
                   (original_revert row c (resorted_index c row (time_written calc row c v s)) s)
                   row (resorted_index c row (time_written calc row c v s)))
                (positions_moved row (resorted_index c row (time_written calc row c v s))
                   (time_written calc row c v s)),
              resorted_index c row (time_written calc row c v s))"
proof -
  let ?s2 = "time_written calc row c v s"
  have p: "parallel ?s2" "row < length (times_a ?s2)"
    using assms by (simp_all add: parallel_time_written time_written_simps)
  have f: "row < length (frames s)" using assms by (simp add: parallel_def)
  note u = set_time_unfold [OF assms(2) f assms(3)]
  show ?thesis
  proof (cases "c = SHOW")
    case True
    show ?thesis
      using sort_data_moved [OF p] unfolding True
      by (simp add: u [unfolded True] resorted_index_def get_mode_written)
  next
    case False
    show ?thesis
      unfolding u using False positions_moved_same [OF p]
      by (simp add: resorted_index_def)
  qed
qed

lemma set_frame_unfold:
  assumes "row < length (times_a s)" "row < length (frames s)" "v \<noteq> get_col c (frames s ! row)"
  shows "set_frame calc row c v reg s =
         (case (if c = SHOW then sort_data row (frame_written calc row c v s)
                else Inr (frame_written calc row c v s, row)) of
            Inl e \<Rightarrow> Inl e
          | Inr (s3, new_row) \<Rightarrow>
              Inr (register_action reg
                     (position_action ''Editing frame'' (original_revert row c new_row s) row new_row)
                     s3, new_row))"
  using assms
  by (cases "get_mode s")
     (simp_all add: set_frame_def frame_written_def Let_def position_action_def original_revert_def
        split: sum.split prod.split)

lemma set_frame_result:
  assumes "parallel s" "row < length (times_a s)" "v \<noteq> get_col c (frames s ! row)"
  shows "set_frame calc row c v reg s =
         Inr (register_action reg
                (position_action ''Editing frame''
                   (original_revert row c (resorted_index c row (frame_written calc row c v s)) s)
                   row (resorted_index c row (frame_written calc row c v s)))
                (positions_moved row (resorted_index c row (frame_written calc row c v s))
                   (frame_written calc row c v s)),
              resorted_index c row (frame_written calc row c v s))"
proof -
  let ?s2 = "frame_written calc row c v s"
  have p: "parallel ?s2" "row < length (times_a ?s2)"
    using assms by (simp_all add: parallel_frame_written frame_written_simps)
  have f: "row < length (frames s)" using assms by (simp add: parallel_def)
  note u = set_frame_unfold [OF assms(2) f assms(3)]
  show ?thesis
  proof (cases "c = SHOW")
    case True
    show ?thesis
      using sort_data_moved [OF p] unfolding True
      by (simp add: u [unfolded True] resorted_index_def get_mode_written)
  next
    case False
    show ?thesis
      unfolding u using False positions_moved_same [OF p]
      by (simp add: resorted_index_def)
  qed
qed






section \<open>The tag converter: claim C9\<close>

lemma sub_range_funpow: "sub_range sub n t = (sub ^^ n) t"
  by (induction n arbitrary: t) (simp_all add: funpow_swap1)

lemma sub_entries_pipeline:
  "sub_entries re_sub (map (compile_entry re_compile) rules) t =
   pipeline_spec re_compile re_sub rules t"
proof (induction rules arbitrary: t)
  case Nil
  show ?case by (simp add: pipeline_spec_def)
next
  case (Cons rule rules)
  obtain pattern flags repl count_o where r: "rule = (pattern, flags, repl, count_o)"
    by (cases rule) auto
  have "sub_entries re_sub (map (compile_entry re_compile) (rule # rules)) t =
        sub_entries re_sub (map (compile_entry re_compile) rules)
          (rule_spec re_compile re_sub rule t)"
    by (cases count_o) (simp_all add: r compile_entry_def rule_spec_def sub_range_funpow)
  also have "\<dots> = pipeline_spec re_compile re_sub rules (rule_spec re_compile re_sub rule t)"
    by (rule Cons.IH)
  also have "\<dots> = pipeline_spec re_compile re_sub (rule # rules) t"
    by (simp add: pipeline_spec_def)
  finally show ?case .
qed

text \<open>
  Claim C9. \<^verbatim>\<open>convert_tags\<close> returns an absent or empty text unchanged; on any other
  text the two nested loops of the source compute the composition that the
  specification describes: \<^verbatim>\<open>pre_decode\<close>, the decode rules in list order with each
  substitution applied count times (once when the rule gives no count), \<^verbatim>\<open>post_decode\<close>,
  \<^verbatim>\<open>pre_encode\<close>, the encode rules likewise, \<^verbatim>\<open>post_encode\<close>.
\<close>

theorem convert_tags_composition:
  "convert_tags re_sub (init_tag_converter re_compile from_format to_format) text_o =
     (case text_o of
        None \<Rightarrow> None
      | Some t \<Rightarrow>
          if t = [] then Some t
          else Some (convert_spec re_compile re_sub from_format to_format t))"
  by (simp add: convert_tags_def init_tag_converter_def convert_spec_def sub_entries_pipeline
           split: option.split)

theorem convert_tags_composition_witness:
  "convert_tags (\<lambda>regex repl t. t @ regex @ repl)
     (init_tag_converter (\<lambda>pattern flags. pattern) example_format example_format)
     (Some ''x'') = Some ''x1b<b>b<b>i<i>23u<u>4''
   \<and> convert_tags (\<lambda>regex repl t. t @ regex @ repl)
     (init_tag_converter (\<lambda>pattern flags. pattern) example_format example_format)
     (Some []) = Some []"
  using convert_tags_composition [of "\<lambda>regex repl t. t @ regex @ repl"
          "\<lambda>pattern flags. pattern" example_format example_format "Some ''x''"]
        convert_tags_composition [of "\<lambda>regex repl t. t @ regex @ repl"
          "\<lambda>pattern flags. pattern" example_format example_format "Some []"]
  by (simp add: convert_spec_def pipeline_spec_def rule_spec_def example_format_def
        eval_nat_numeral)

section \<open>Writes of the current value: claim C6\<close>

text \<open>
  Claim C6. \<^verbatim>\<open>set_time\<close> called with the time that the row already stores in the column,
  and \<^verbatim>\<open>set_frame\<close> called with the frame that it already stores, return the row that
  they were given and the project as it was: the four lists and both stacks are
  unchanged, so no action has been registered.
\<close>

theorem set_time_set_frame_noop:
  assumes "row < length (times_a s)" and "row < length (frames s)"
  shows "set_time calc row c (get_col c (times_a s ! row)) reg s = Inr (s, row)
       \<and> set_frame calc row c (get_col c (frames s ! row)) reg s = Inr (s, row)"
  using assms by (simp add: set_time_def set_frame_def)

theorem set_time_set_frame_noop_witness:
  "1 < length (times_a example_project) \<and> 1 < length (frames example_project)
   \<and> set_time example_calc 1 HIDE 3000 DO example_project = Inr (example_project, 1)
   \<and> set_frame example_calc 1 HIDE 75 DO example_project = Inr (example_project, 1)"
  using set_time_set_frame_noop [of 1 example_project example_calc HIDE DO]
  by (simp add: example_project_def)

section \<open>The registered revert call: claim C5\<close>

lemma register_action_stacks:
  "times_a (register_action reg a s) = times_a s"
  "frames (register_action reg a s) = frames s"
  "main_texts (register_action reg a s) = main_texts s"
  "tran_texts (register_action reg a s) = tran_texts s"
  "main_file (register_action reg a s) = main_file s"
  "clipboard (register_action reg a s) = clipboard s"
  "blocked (register_action reg a s) = blocked s"
  by (cases reg; simp add: register_action_def)+

lemma positions_moved_simps:
  "times_a (positions_moved row r s) = move_entry row r (times_a s)"
  "frames (positions_moved row r s) = move_entry row r (frames s)"
  "main_texts (positions_moved row r s) = move_entry row r (main_texts s)"
  "tran_texts (positions_moved row r s) = move_entry row r (tran_texts s)"
  "main_file (positions_moved row r s) = main_file s"
  "undoables (positions_moved row r s) = undoables s"
  "redoables (positions_moved row r s) = redoables s"
  "blocked (positions_moved row r s) = blocked s"
  by (simp_all add: positions_moved_def)

lemma get_set_col: "get_col c (set_col c v p) = v"
  by (cases p; cases c) simp_all

lemma get_set_col_other: "c \<noteq> c' \<Longrightarrow> get_col c (set_col c' v p) = get_col c p"
  by (cases p; cases c; cases c') simp_all

lemma time_written_row:
  assumes "row < length (times_a s)" "row < length (frames s)"
  shows "times_a (time_written calc row c v s) ! row =
           (case c of
              SHOW \<Rightarrow> (v, get_col HIDE (times_a s ! row),
                        get_time_duration calc v (get_col HIDE (times_a s ! row)))
            | HIDE \<Rightarrow> (get_col SHOW (times_a s ! row), v,
                        get_time_duration calc (get_col SHOW (times_a s ! row)) v)
            | DURN \<Rightarrow> (get_col SHOW (times_a s ! row),
                        add_times calc (get_col SHOW (times_a s ! row)) v, v))"
    and "frames (time_written calc row c v s) ! row =
           (case c of
              SHOW \<Rightarrow> (time_to_frame calc v, get_col HIDE (frames s ! row),
                        get_frame_duration calc (time_to_frame calc v) (get_col HIDE (frames s ! row)))
            | HIDE \<Rightarrow> (get_col SHOW (frames s ! row), time_to_frame calc v,
                        get_frame_duration calc (get_col SHOW (frames s ! row)) (time_to_frame calc v))
            | DURN \<Rightarrow> (get_col SHOW (frames s ! row),
                        get_col SHOW (frames s ! row) + time_to_frame calc v, time_to_frame calc v))"
  using assms
  by (cases "times_a s ! row"; cases "frames s ! row"; cases c;
      simp add: time_written_def set_durations_simps set_hides_simps)+

lemma frame_written_row:
  assumes "row < length (times_a s)" "row < length (frames s)"
  shows "times_a (frame_written calc row c v s) ! row =
           (case c of
              SHOW \<Rightarrow> (frame_to_time calc v, get_col HIDE (times_a s ! row),
                        get_time_duration calc (frame_to_time calc v) (get_col HIDE (times_a s ! row)))
            | HIDE \<Rightarrow> (get_col SHOW (times_a s ! row), frame_to_time calc v,
                        get_time_duration calc (get_col SHOW (times_a s ! row)) (frame_to_time calc v))
            | DURN \<Rightarrow> (get_col SHOW (times_a s ! row),
                        add_times calc (get_col SHOW (times_a s ! row)) (frame_to_time calc v),
                        frame_to_time calc v))"
    and "frames (frame_written calc row c v s) ! row =
           (case c of
              SHOW \<Rightarrow> (v, get_col HIDE (frames s ! row),
                        get_frame_duration calc v (get_col HIDE (frames s ! row)))
            | HIDE \<Rightarrow> (get_col SHOW (frames s ! row), v,
                        get_frame_duration calc (get_col SHOW (frames s ! row)) v)
            | DURN \<Rightarrow> (get_col SHOW (frames s ! row), get_col SHOW (frames s ! row) + v, v))"
  using assms
  by (cases "times_a s ! row"; cases "frames s ! row"; cases c;
      simp add: frame_written_def set_durations_simps set_hides_simps)+

lemma written_others:
  assumes "row < length (times_a s)" "row < length (frames s)"
  shows "list_pop row (times_a (time_written calc row c v s)) = list_pop row (times_a s)"
    and "list_pop row (frames (time_written calc row c v s)) = list_pop row (frames s)"
    and "list_pop row (times_a (frame_written calc row c fv s)) = list_pop row (times_a s)"
    and "list_pop row (frames (frame_written calc row c fv s)) = list_pop row (frames s)"
  using assms
  by (simp_all add: time_written_def frame_written_def Let_def set_durations_simps
        set_hides_simps list_pop_def)

lemma resorted_index_less:
  "parallel s \<Longrightarrow> row < length (times_a s) \<Longrightarrow> resorted_index c row s < length (times_a s)"
  using new_index_less [of row "times_a s"] new_index_less [of row "frames s"]
  by (auto simp: resorted_index_def parallel_def split: mode.splits)

lemma written_col:
  assumes "row < length (times_a s)" "row < length (frames s)"
  shows "get_col c (times_a (time_written calc row c v s) ! row) = v"
    and "get_col c (frames (frame_written calc row c fv s) ! row) = fv"
    and "get_col c (frames (time_written calc row c v s) ! row) = time_to_frame calc v"
    and "get_col c (times_a (frame_written calc row c fv s) ! row) = frame_to_time calc fv"
  using time_written_row [OF assms, of calc c v] frame_written_row [OF assms, of calc c fv]
  by (cases c; simp)+

text \<open>
  Claim C5. A call of \<^verbatim>\<open>set_frame\<close> or \<^verbatim>\<open>set_time\<close> that changes the stored value
  returns, and registers one action whose revert call depends on the mode only: in time
  mode it is \<^verbatim>\<open>set_time\<close> with the time that the row stored in the column before the
  call, in frame mode it is \<^verbatim>\<open>set_frame\<close> with the frame that it stored, whichever of
  the two methods was called. The row argument of the revert call is the returned
  index \<open>r\<close>, where the edited row now is (it holds the written value). The stacks of
  \<open>s3\<close> are those before the call, so the action is the one new entry.
\<close>

theorem revert_in_authoritative_mode:
  assumes "parallel s" and "row < length (times_a s)"
    and "fv \<noteq> get_col c (frames s ! row)" and "tv \<noteq> get_col c (times_a s ! row)"
  shows "(\<exists>s3 a r. set_frame calc row c fv reg s = Inr (register_action reg a s3, r)
            \<and> undoables s3 = undoables s \<and> redoables s3 = redoables s
            \<and> get_col c (frames s3 ! r) = fv
            \<and> reverts a = [case get_mode s of
                               TIME \<Rightarrow> Set_time r c (get_col c (times_a s ! row))
                             | FRAME \<Rightarrow> Set_frame r c (get_col c (frames s ! row))])
       \<and> (\<exists>s3 a r. set_time calc row c tv reg s = Inr (register_action reg a s3, r)
            \<and> undoables s3 = undoables s \<and> redoables s3 = redoables s
            \<and> get_col c (times_a s3 ! r) = tv
            \<and> reverts a = [case get_mode s of
                               TIME \<Rightarrow> Set_time r c (get_col c (times_a s ! row))
                             | FRAME \<Rightarrow> Set_frame r c (get_col c (frames s ! row))])"
proof -
  have f: "row < length (frames s)" using assms(1,2) by (simp add: parallel_def)
  let ?sf = "frame_written calc row c fv s"
  let ?st = "time_written calc row c tv s"
  have pf: "parallel ?sf" "row < length (times_a ?sf)" "row < length (frames ?sf)"
    using assms(1,2) f by (simp_all add: parallel_frame_written frame_written_simps)
  have pt: "parallel ?st" "row < length (times_a ?st)" "row < length (frames ?st)"
    using assms(1,2) f by (simp_all add: parallel_time_written time_written_simps)
  have rf: "resorted_index c row ?sf < length (frames ?sf)"
    using resorted_index_less [OF pf(1,2), of c] pf(1) by (simp add: parallel_def)
  have rt: "resorted_index c row ?st < length (times_a ?st)"
    using resorted_index_less [OF pt(1,2), of c] .
  have a: "get_col c (frames (positions_moved row (resorted_index c row ?sf) ?sf)
             ! resorted_index c row ?sf) = fv"
    using nth_move_entry [OF pf(3) rf] written_col(2) [OF assms(2) f]
    by (simp add: positions_moved_simps)
  have b: "get_col c (times_a (positions_moved row (resorted_index c row ?st) ?st)
             ! resorted_index c row ?st) = tv"
    using nth_move_entry [OF pt(2) rt] written_col(1) [OF assms(2) f]
    by (simp add: positions_moved_simps)
  have "\<exists>s3 a r. set_frame calc row c fv reg s = Inr (register_action reg a s3, r)
            \<and> undoables s3 = undoables s \<and> redoables s3 = redoables s
            \<and> get_col c (frames s3 ! r) = fv
            \<and> reverts a = [case get_mode s of
                               TIME \<Rightarrow> Set_time r c (get_col c (times_a s ! row))
                             | FRAME \<Rightarrow> Set_frame r c (get_col c (frames s ! row))]"
    apply (rule exI [of _ "positions_moved row (resorted_index c row ?sf) ?sf"])
    apply (rule exI [of _ "position_action ''Editing frame''
             (original_revert row c (resorted_index c row ?sf) s) row
             (resorted_index c row ?sf)"])
    apply (rule exI [of _ "resorted_index c row ?sf"])
    using a set_frame_result [OF assms(1,2,3), of calc reg]
    by (simp add: positions_moved_simps frame_written_simps position_action_def
          new_action_def original_revert_def split: mode.split)
  moreover have "\<exists>s3 a r. set_time calc row c tv reg s = Inr (register_action reg a s3, r)
            \<and> undoables s3 = undoables s \<and> redoables s3 = redoables s
            \<and> get_col c (times_a s3 ! r) = tv
            \<and> reverts a = [case get_mode s of
                               TIME \<Rightarrow> Set_time r c (get_col c (times_a s ! row))
                             | FRAME \<Rightarrow> Set_frame r c (get_col c (frames s ! row))]"
    apply (rule exI [of _ "positions_moved row (resorted_index c row ?st) ?st"])
    apply (rule exI [of _ "position_action ''Editing time''
             (original_revert row c (resorted_index c row ?st) s) row
             (resorted_index c row ?st)"])
    apply (rule exI [of _ "resorted_index c row ?st"])
    using b set_time_result [OF assms(1,2,4), of calc reg]
    by (simp add: positions_moved_simps time_written_simps position_action_def
          new_action_def original_revert_def split: mode.split)
  ultimately show ?thesis by blast
qed

theorem revert_in_authoritative_mode_witness:
  "parallel example_project \<and> 1 < length (times_a example_project)
   \<and> (80::int) \<noteq> get_col HIDE (frames example_project ! 1)
   \<and> (3500::nat) \<noteq> get_col HIDE (times_a example_project ! 1)
   \<and> get_mode example_project = TIME
   \<and> (\<exists>s3 a r. set_frame example_calc 1 HIDE 80 DO example_project =
                   Inr (register_action DO a s3, r)
         \<and> get_col HIDE (frames s3 ! r) = 80
         \<and> reverts a = [Set_time r HIDE 3000])"
proof -
  have h: "parallel example_project" "1 < length (times_a example_project)"
    "(80::int) \<noteq> get_col HIDE (frames example_project ! 1)"
    "(3500::nat) \<noteq> get_col HIDE (times_a example_project ! 1)"
    by (simp_all add: example_project_def parallel_def)
  have m: "get_mode example_project = TIME"
    "get_col HIDE (times_a example_project ! 1) = 3000"
    by (simp_all add: example_project_def get_mode_def)
  from revert_in_authoritative_mode [OF h, of example_calc DO]
  obtain s3 a r where
    "set_frame example_calc 1 HIDE 80 DO example_project = Inr (register_action DO a s3, r)"
    "get_col HIDE (frames s3 ! r) = 80"
    "reverts a = [case get_mode example_project of
                    TIME \<Rightarrow> Set_time r HIDE (get_col HIDE (times_a example_project ! 1))
                  | FRAME \<Rightarrow> Set_frame r HIDE (get_col HIDE (frames example_project ! 1))]"
    by blast
  then show ?thesis using h m by auto
qed


section \<open>The resort after a change of the show value: claim C4\<close>






lemmas run_defs =
  set_time_def set_frame_def set_durations_def set_hides_def sort_data_def new_index_def
  bisect_right_def bisect_right_loop.simps move_entry_def list_insert_def list_pop_def
  register_action_def new_action_def get_mode_def Let_def



lemma register_action_DO: "undoables (register_action DO a s) = a # undoables s"
  by (simp add: register_action_def)





section \<open>The fields of a row after a write: claim C3\<close>

lemma example_calc_rounding:
  "\<bar>time_to_frame example_calc (add_times example_calc a d)
     - (time_to_frame example_calc a + time_to_frame example_calc d)\<bar> \<le> 1"
proof -
  have b: "1000 * q \<le> n \<and> n < 1000 * q + 1000" if "q = n div 1000" for n q :: int
    using div_mult_mod_eq [of n 1000] pos_mod_bound [of 1000 n] pos_mod_sign [of 1000 n]
    unfolding that by (simp only: mult.commute [of 1000]) linarith
  have "\<bar>(x + y + 500) div 1000 - ((x + 500) div 1000 + (y + 500) div 1000)\<bar> \<le> 1"
    for x y :: int
  proof -
    define A where "A = (x + y + 500) div 1000"
    define B where "B = (x + 500) div 1000"
    define C where "C = (y + 500) div 1000"
    from b [OF A_def] b [OF B_def] b [OF C_def] have "\<bar>A - (B + C)\<bar> \<le> 1" by linarith
    then show ?thesis unfolding A_def B_def C_def .
  qed
  from this [of "int a * 25" "int d * 25"] show ?thesis
    by (simp add: example_calc_def algebra_simps)
qed

lemma row_in_sync_exact: "row_in_sync calc 0 t f \<longleftrightarrow> f = frame_image calc t"
  by (cases f) (auto simp: row_in_sync_def frame_image_def)

lemma time_write_keeps_sync:
  assumes "\<forall>a b. get_frame_duration calc a b = b - a"
    and "\<forall>a d. \<bar>time_to_frame calc (add_times calc a d)
                  - (time_to_frame calc a + time_to_frame calc d)\<bar> \<le> e"
    and "row_in_sync calc e t f"
  shows "row_in_sync calc e
          (case c of
              SHOW \<Rightarrow> (v, get_col HIDE t, get_time_duration calc v (get_col HIDE t))
            | HIDE \<Rightarrow> (get_col SHOW t, v, get_time_duration calc (get_col SHOW t) v)
            | DURN \<Rightarrow> (get_col SHOW t, add_times calc (get_col SHOW t) v, v))
          (case c of
              SHOW \<Rightarrow> (time_to_frame calc v, get_col HIDE f,
                        get_frame_duration calc (time_to_frame calc v) (get_col HIDE f))
            | HIDE \<Rightarrow> (get_col SHOW f, time_to_frame calc v,
                        get_frame_duration calc (get_col SHOW f) (time_to_frame calc v))
            | DURN \<Rightarrow> (get_col SHOW f, get_col SHOW f + time_to_frame calc v,
                        time_to_frame calc v))"
proof -
  obtain ts th td where t: "t = (ts, th, td)" by (cases t)
  obtain fs fh fd where f: "f = (fs, fh, fd)" by (cases f)
  from assms(3) have s: "fs = time_to_frame calc ts"
    and h: "\<bar>fh - time_to_frame calc th\<bar> \<le> e"
    by (simp_all add: row_in_sync_def frame_image_def t f)
  from h have e: "0 \<le> e" by linarith
  note r = assms(2) [rule_format, of ts v]
  show ?thesis
  proof (cases c)
    case SHOW
    then show ?thesis using h by (simp add: row_in_sync_def frame_image_def t f assms(1))
  next
    case HIDE
    then show ?thesis using e by (simp add: row_in_sync_def frame_image_def t f assms(1) s)
  next
    case DURN
    then show ?thesis using r
      by (simp add: row_in_sync_def frame_image_def t f assms(1) s) linarith
  qed
qed

lemma frame_write_keeps_sync:
  assumes "\<forall>a b. get_frame_duration calc a b = b - a"
    and "\<forall>a d. \<bar>time_to_frame calc (add_times calc a d)
                  - (time_to_frame calc a + time_to_frame calc d)\<bar> \<le> e"
    and "time_to_frame calc (frame_to_time calc v) = v"
    and "row_in_sync calc e t f"
  shows "row_in_sync calc e
          (case c of
              SHOW \<Rightarrow> (frame_to_time calc v, get_col HIDE t,
                        get_time_duration calc (frame_to_time calc v) (get_col HIDE t))
            | HIDE \<Rightarrow> (get_col SHOW t, frame_to_time calc v,
                        get_time_duration calc (get_col SHOW t) (frame_to_time calc v))
            | DURN \<Rightarrow> (get_col SHOW t,
                        add_times calc (get_col SHOW t) (frame_to_time calc v),
                        frame_to_time calc v))
          (case c of
              SHOW \<Rightarrow> (v, get_col HIDE f, get_frame_duration calc v (get_col HIDE f))
            | HIDE \<Rightarrow> (get_col SHOW f, v, get_frame_duration calc (get_col SHOW f) v)
            | DURN \<Rightarrow> (get_col SHOW f, get_col SHOW f + v, v))"
proof -
  obtain ts th td where t: "t = (ts, th, td)" by (cases t)
  obtain fs fh fd where f: "f = (fs, fh, fd)" by (cases f)
  from assms(4) have s: "fs = time_to_frame calc ts"
    and h: "\<bar>fh - time_to_frame calc th\<bar> \<le> e"
    by (simp_all add: row_in_sync_def frame_image_def t f)
  from h have e: "0 \<le> e" by linarith
  note r = assms(2) [rule_format, of ts "frame_to_time calc v"]
  show ?thesis
  proof (cases c)
    case SHOW
    then show ?thesis using h
      by (simp add: row_in_sync_def frame_image_def t f assms(1,3))
  next
    case HIDE
    then show ?thesis using e
      by (simp add: row_in_sync_def frame_image_def t f assms(1,3) s)
  next
    case DURN
    then show ?thesis using r
      by (simp add: row_in_sync_def frame_image_def t f assms(1,3) s) linarith
  qed
qed


lemma list_pop_eq_update:
  assumes "length xs' = length xs" and "row < length xs"
    and "list_pop row xs' = list_pop row xs"
  shows "xs' = xs[row := xs' ! row]"
proof -
  have "xs' = list_insert row (xs' ! row) (list_pop row xs')"
    using assms(1,2) by (simp add: list_insert_list_pop)
  also have "\<dots> = list_insert row (xs' ! row) (list_pop row xs)"
    unfolding assms(3) ..
  also have "\<dots> = xs[row := xs' ! row]"
    using assms(2) by (simp add: list_insert_def list_pop_def upd_conv_take_nth_drop)
  finally show ?thesis .
qed

lemma list_all2_move_entry:
  assumes "list_all2 P xs ys" and "row < length xs"
  shows "list_all2 P (move_entry row r xs) (move_entry row r ys)"
proof -
  have l: "length ys = length xs" using assms(1) by (simp add: list_all2_lengthD)
  have e: "P (xs ! row) (ys ! row)" using assms by (simp add: list_all2_nthD)
  have p: "list_all2 P (list_pop row xs) (list_pop row ys)"
    unfolding list_pop_def
    by (intro list_all2_appendI list_all2_takeI list_all2_dropI assms(1))
  show ?thesis
    unfolding move_entry_def list_insert_def
    by (intro list_all2_appendI list_all2_takeI p)
       (simp add: e list_all2_dropI p)
qed

lemma written_lists:
  assumes "row < length (times_a s)" "row < length (frames s)"
  shows "times_a (time_written calc row c v s) =
           (times_a s)[row := times_a (time_written calc row c v s) ! row]"
    and "frames (time_written calc row c v s) =
           (frames s)[row := frames (time_written calc row c v s) ! row]"
    and "times_a (frame_written calc row c fv s) =
           (times_a s)[row := times_a (frame_written calc row c fv s) ! row]"
    and "frames (frame_written calc row c fv s) =
           (frames s)[row := frames (frame_written calc row c fv s) ! row]"
  using assms written_others(1,2) [OF assms, of calc c v]
    written_others(3,4) [OF assms, of calc c fv]
  by (simp_all add: list_pop_eq_update time_written_simps frame_written_simps)

lemma list_all2_written:
  assumes "list_all2 P xs ys" and "xs' = xs[row := t]" and "ys' = ys[row := f]" and "P t f"
  shows "list_all2 P xs' ys'"
  unfolding assms(2,3) using assms(1,4) by (rule list_all2_update_cong)

lemma set_time_sync:
  assumes "parallel s" and "row < length (times_a s)"
    and "\<forall>a b. get_frame_duration calc a b = b - a"
    and "\<forall>a d. \<bar>time_to_frame calc (add_times calc a d)
                  - (time_to_frame calc a + time_to_frame calc d)\<bar> \<le> e"
  shows "\<exists>s' r. set_time calc row c tv reg s = Inr (s', r)
           \<and> (tv = get_col c (times_a s ! row) \<longrightarrow> s' = s \<and> r = row)
           \<and> (tv \<noteq> get_col c (times_a s ! row) \<longrightarrow>
                times_a s' ! r = times_a (time_written calc row c tv s) ! row
                \<and> frames s' ! r = frames (time_written calc row c tv s) ! row)
           \<and> (row_in_sync calc e (times_a s ! row) (frames s ! row) \<longrightarrow>
                row_in_sync calc e (times_a s' ! r) (frames s' ! r))
           \<and> (list_all2 (row_in_sync calc e) (times_a s) (frames s) \<longrightarrow>
                list_all2 (row_in_sync calc e) (times_a s') (frames s'))"
proof (cases "tv = get_col c (times_a s ! row)")
  case True
  then have "set_time calc row c tv reg s = Inr (s, row)"
    using assms(2) by (simp add: set_time_def)
  then show ?thesis using True by simp
next
  case False
  let ?s2 = "time_written calc row c tv s"
  let ?r = "resorted_index c row ?s2"
  let ?a = "position_action ''Editing time'' (original_revert row c ?r s) row ?r"
  let ?s' = "register_action reg ?a (positions_moved row ?r ?s2)"
  have f: "row < length (frames s)" using assms(1,2) by (simp add: parallel_def)
  have p: "parallel ?s2" "row < length (times_a ?s2)" "row < length (frames ?s2)"
    using assms(1,2) f by (simp_all add: parallel_time_written time_written_simps)
  have r: "?r < length (times_a ?s2)" "?r < length (frames ?s2)"
    using resorted_index_less [OF p(1,2), of c] p(1) by (simp_all add: parallel_def)
  have res: "set_time calc row c tv reg s = Inr (?s', ?r)"
    by (rule set_time_result [OF assms(1,2) False])
  have l: "times_a ?s' = move_entry row ?r (times_a ?s2)"
    "frames ?s' = move_entry row ?r (frames ?s2)"
    by (simp_all add: register_action_stacks positions_moved_simps)
  have n: "times_a ?s' ! ?r = times_a ?s2 ! row" "frames ?s' ! ?r = frames ?s2 ! row"
    unfolding l using nth_move_entry [OF p(2) r(1)] nth_move_entry [OF p(3) r(2)]
    by simp_all
  have k: "row_in_sync calc e (times_a ?s2 ! row) (frames ?s2 ! row)"
    if "row_in_sync calc e (times_a s ! row) (frames s ! row)"
    unfolding time_written_row [OF assms(2) f]
    by (rule time_write_keeps_sync [OF assms(3,4) that])
  have a: "list_all2 (row_in_sync calc e) (times_a ?s') (frames ?s')"
    if "list_all2 (row_in_sync calc e) (times_a s) (frames s)"
  proof -
    from that assms(2) have "row_in_sync calc e (times_a s ! row) (frames s ! row)"
      by (rule list_all2_nthD)
    then have "row_in_sync calc e (times_a ?s2 ! row) (frames ?s2 ! row)" by (rule k)
    with that written_lists(1,2) [OF assms(2) f, of calc c tv]
    have "list_all2 (row_in_sync calc e) (times_a ?s2) (frames ?s2)"
      by (rule list_all2_written)
    then show ?thesis unfolding l using p(2) by (rule list_all2_move_entry)
  qed
  show ?thesis
    apply (rule exI [of _ ?s'], rule exI [of _ ?r])
    apply (intro conjI impI)
          apply (rule res)
    using False apply simp
    using False apply simp
       apply (rule n(1))
      apply (rule n(2))
     apply (simp only: n, erule k)
    apply (erule a)
    done
qed

lemma set_frame_sync:
  assumes "parallel s" and "row < length (times_a s)"
    and "\<forall>a b. get_frame_duration calc a b = b - a"
    and "\<forall>a d. \<bar>time_to_frame calc (add_times calc a d)
                  - (time_to_frame calc a + time_to_frame calc d)\<bar> \<le> e"
    and "time_to_frame calc (frame_to_time calc fv) = fv"
  shows "\<exists>s' r. set_frame calc row c fv reg s = Inr (s', r)
           \<and> (fv = get_col c (frames s ! row) \<longrightarrow> s' = s \<and> r = row)
           \<and> (fv \<noteq> get_col c (frames s ! row) \<longrightarrow>
                times_a s' ! r = times_a (frame_written calc row c fv s) ! row
                \<and> frames s' ! r = frames (frame_written calc row c fv s) ! row)
           \<and> (row_in_sync calc e (times_a s ! row) (frames s ! row) \<longrightarrow>
                row_in_sync calc e (times_a s' ! r) (frames s' ! r))
           \<and> (list_all2 (row_in_sync calc e) (times_a s) (frames s) \<longrightarrow>
                list_all2 (row_in_sync calc e) (times_a s') (frames s'))"
proof (cases "fv = get_col c (frames s ! row)")
  case True
  have f: "row < length (frames s)" using assms(1,2) by (simp add: parallel_def)
  then have "set_frame calc row c fv reg s = Inr (s, row)"
    using True by (simp add: set_frame_def)
  then show ?thesis using True by simp
next
  case False
  let ?s2 = "frame_written calc row c fv s"
  let ?r = "resorted_index c row ?s2"
  let ?a = "position_action ''Editing frame'' (original_revert row c ?r s) row ?r"
  let ?s' = "register_action reg ?a (positions_moved row ?r ?s2)"
  have f: "row < length (frames s)" using assms(1,2) by (simp add: parallel_def)
  have p: "parallel ?s2" "row < length (times_a ?s2)" "row < length (frames ?s2)"
    using assms(1,2) f by (simp_all add: parallel_frame_written frame_written_simps)
  have r: "?r < length (times_a ?s2)" "?r < length (frames ?s2)"
    using resorted_index_less [OF p(1,2), of c] p(1) by (simp_all add: parallel_def)
  have res: "set_frame calc row c fv reg s = Inr (?s', ?r)"
    by (rule set_frame_result [OF assms(1,2) False])
  have l: "times_a ?s' = move_entry row ?r (times_a ?s2)"
    "frames ?s' = move_entry row ?r (frames ?s2)"
    by (simp_all add: register_action_stacks positions_moved_simps)
  have n: "times_a ?s' ! ?r = times_a ?s2 ! row" "frames ?s' ! ?r = frames ?s2 ! row"
    unfolding l using nth_move_entry [OF p(2) r(1)] nth_move_entry [OF p(3) r(2)]
    by simp_all
  have k: "row_in_sync calc e (times_a ?s2 ! row) (frames ?s2 ! row)"
    if "row_in_sync calc e (times_a s ! row) (frames s ! row)"
    unfolding frame_written_row [OF assms(2) f]
    by (rule frame_write_keeps_sync [OF assms(3,4,5) that])
  have a: "list_all2 (row_in_sync calc e) (times_a ?s') (frames ?s')"
    if "list_all2 (row_in_sync calc e) (times_a s) (frames s)"
  proof -
    from that assms(2) have "row_in_sync calc e (times_a s ! row) (frames s ! row)"
      by (rule list_all2_nthD)
    then have "row_in_sync calc e (times_a ?s2 ! row) (frames ?s2 ! row)" by (rule k)
    with that written_lists(3,4) [OF assms(2) f, of calc c fv]
    have "list_all2 (row_in_sync calc e) (times_a ?s2) (frames ?s2)"
      by (rule list_all2_written)
    then show ?thesis unfolding l using p(2) by (rule list_all2_move_entry)
  qed
  show ?thesis
    apply (rule exI [of _ ?s'], rule exI [of _ ?r])
    apply (intro conjI impI)
          apply (rule res)
    using False apply simp
    using False apply simp
       apply (rule n(1))
      apply (rule n(2))
     apply (simp only: n, erule k)
    apply (erule a)
    done
qed

text \<open>
  Claim C3. The calculator is a parameter; three laws of it are assumed: its
  \<^verbatim>\<open>get_time_duration\<close> undoes its \<^verbatim>\<open>add_times\<close>, its \<^verbatim>\<open>get_frame_duration\<close> is the
  difference of the frames, and the frame of a sum of two times differs from the sum
  of their frames by at most \<open>e\<close>, which is the rounding tolerance of the calculator (one
  frame for a calculator that rounds to the nearest frame). A row is in sync within
  \<open>e\<close> when its frame triple has the show of the image of its time triple, and a hide
  and a duration that differ from those of the image by at most \<open>e\<close>.

  In a project with four lists of the same length, every call of \<^verbatim>\<open>set_time\<close> on a row
  of the project completes, for each of the three columns, and so does every call of
  \<^verbatim>\<open>set_frame\<close> with a frame that the calculator converts to a time and back unchanged.
  With \<open>r\<close> the returned index:
  \<^item> a row that was in sync within \<open>e\<close> is in sync within \<open>e\<close> at \<open>r\<close> after the call, and
    when all rows were in sync within \<open>e\<close> all rows are;
  \<^item> a frame triple that was exactly the image of the time triple is exactly the image
    after a \<^verbatim>\<open>set_time\<close> of show or hide, and symmetrically for \<^verbatim>\<open>set_frame\<close>;
  \<^item> a call with the stored value leaves the project and the row as they are;
  \<^item> a call with another value stores it in its system and the calculator's image of
    it in the other system; after a write of show or hide both durations are
    recomputed from show and hide, after a write of the duration both hides are
    recomputed from show and duration, each in its own system, and every other field
    keeps its value; duration = hide - show then holds in both systems.
\<close>

theorem position_fields_after_write:
  assumes "parallel s" and "row < length (times_a s)"
    and "\<forall>a d. get_time_duration calc a (add_times calc a d) = d"
    and "\<forall>a b. get_frame_duration calc a b = b - a"
    and "\<forall>a d. \<bar>time_to_frame calc (add_times calc a d)
                  - (time_to_frame calc a + time_to_frame calc d)\<bar> \<le> e"
    and "time_to_frame calc (frame_to_time calc fv) = fv"
  shows "(\<exists>s' r. set_time calc row c tv reg s = Inr (s', r)
           \<and> (row_in_sync calc e (times_a s ! row) (frames s ! row) \<longrightarrow>
                row_in_sync calc e (times_a s' ! r) (frames s' ! r))
           \<and> (list_all2 (row_in_sync calc e) (times_a s) (frames s) \<longrightarrow>
                list_all2 (row_in_sync calc e) (times_a s') (frames s'))
           \<and> (c \<noteq> DURN \<and> frames s ! row = frame_image calc (times_a s ! row)
                \<longrightarrow> frames s' ! r = frame_image calc (times_a s' ! r))
           \<and> (tv = get_col c (times_a s ! row) \<longrightarrow> s' = s \<and> r = row)
           \<and> (tv \<noteq> get_col c (times_a s ! row) \<longrightarrow>
                times_a s' ! r =
                  (case c of
                     SHOW \<Rightarrow> (tv, get_col HIDE (times_a s ! row),
                               get_time_duration calc tv (get_col HIDE (times_a s ! row)))
                   | HIDE \<Rightarrow> (get_col SHOW (times_a s ! row), tv,
                               get_time_duration calc (get_col SHOW (times_a s ! row)) tv)
                   | DURN \<Rightarrow> (get_col SHOW (times_a s ! row),
                               add_times calc (get_col SHOW (times_a s ! row)) tv, tv))
                \<and> frames s' ! r =
                  (case c of
                     SHOW \<Rightarrow> (time_to_frame calc tv, get_col HIDE (frames s ! row),
                               get_frame_duration calc (time_to_frame calc tv)
                                 (get_col HIDE (frames s ! row)))
                   | HIDE \<Rightarrow> (get_col SHOW (frames s ! row), time_to_frame calc tv,
                               get_frame_duration calc (get_col SHOW (frames s ! row))
                                 (time_to_frame calc tv))
                   | DURN \<Rightarrow> (get_col SHOW (frames s ! row),
                               get_col SHOW (frames s ! row) + time_to_frame calc tv,
                               time_to_frame calc tv))
                \<and> get_col c (frames s' ! r) = time_to_frame calc (get_col c (times_a s' ! r))
                \<and> get_col DURN (times_a s' ! r) =
                    get_time_duration calc (get_col SHOW (times_a s' ! r))
                      (get_col HIDE (times_a s' ! r))
                \<and> get_col DURN (frames s' ! r) =
                    get_col HIDE (frames s' ! r) - get_col SHOW (frames s' ! r)))
       \<and> (\<exists>s' r. set_frame calc row c fv reg s = Inr (s', r)
           \<and> (row_in_sync calc e (times_a s ! row) (frames s ! row) \<longrightarrow>
                row_in_sync calc e (times_a s' ! r) (frames s' ! r))
           \<and> (list_all2 (row_in_sync calc e) (times_a s) (frames s) \<longrightarrow>
                list_all2 (row_in_sync calc e) (times_a s') (frames s'))
           \<and> (c \<noteq> DURN \<and> times_a s ! row = time_image calc (frames s ! row)
                \<longrightarrow> times_a s' ! r = time_image calc (frames s' ! r))
           \<and> (fv = get_col c (frames s ! row) \<longrightarrow> s' = s \<and> r = row)
           \<and> (fv \<noteq> get_col c (frames s ! row) \<longrightarrow>
                times_a s' ! r =
                  (case c of
                     SHOW \<Rightarrow> (frame_to_time calc fv, get_col HIDE (times_a s ! row),
                               get_time_duration calc (frame_to_time calc fv)
                                 (get_col HIDE (times_a s ! row)))
                   | HIDE \<Rightarrow> (get_col SHOW (times_a s ! row), frame_to_time calc fv,
                               get_time_duration calc (get_col SHOW (times_a s ! row))
                                 (frame_to_time calc fv))
                   | DURN \<Rightarrow> (get_col SHOW (times_a s ! row),
                               add_times calc (get_col SHOW (times_a s ! row))
                                 (frame_to_time calc fv),
                               frame_to_time calc fv))
                \<and> frames s' ! r =
                  (case c of
                     SHOW \<Rightarrow> (fv, get_col HIDE (frames s ! row),
                               get_frame_duration calc fv (get_col HIDE (frames s ! row)))
                   | HIDE \<Rightarrow> (get_col SHOW (frames s ! row), fv,
                               get_frame_duration calc (get_col SHOW (frames s ! row)) fv)
                   | DURN \<Rightarrow> (get_col SHOW (frames s ! row),
                               get_col SHOW (frames s ! row) + fv, fv))
                \<and> get_col c (times_a s' ! r) = frame_to_time calc (get_col c (frames s' ! r))
                \<and> get_col DURN (times_a s' ! r) =
                    get_time_duration calc (get_col SHOW (times_a s' ! r))
                      (get_col HIDE (times_a s' ! r))
                \<and> get_col DURN (frames s' ! r) =
                    get_col HIDE (frames s' ! r) - get_col SHOW (frames s' ! r)))"
proof -
  have f: "row < length (frames s)" using assms(1,2) by (simp add: parallel_def)
  note tw = time_written_row [OF assms(2) f, of calc c tv]
  note fw = frame_written_row [OF assms(2) f, of calc c fv]
  from set_time_sync [OF assms(1,2,4,5), of c tv reg] obtain s' r where
    t: "set_time calc row c tv reg s = Inr (s', r)"
    and t0: "tv = get_col c (times_a s ! row) \<longrightarrow> s' = s \<and> r = row"
    and t1: "tv \<noteq> get_col c (times_a s ! row) \<longrightarrow>
               times_a s' ! r = times_a (time_written calc row c tv s) ! row
               \<and> frames s' ! r = frames (time_written calc row c tv s) ! row"
    and t2: "row_in_sync calc e (times_a s ! row) (frames s ! row) \<longrightarrow>
               row_in_sync calc e (times_a s' ! r) (frames s' ! r)"
    and t3: "list_all2 (row_in_sync calc e) (times_a s) (frames s) \<longrightarrow>
               list_all2 (row_in_sync calc e) (times_a s') (frames s')"
    by blast
  from set_frame_sync [OF assms(1,2,4,5,6), of c reg] obtain u' q where
    u: "set_frame calc row c fv reg s = Inr (u', q)"
    and u0: "fv = get_col c (frames s ! row) \<longrightarrow> u' = s \<and> q = row"
    and u1: "fv \<noteq> get_col c (frames s ! row) \<longrightarrow>
               times_a u' ! q = times_a (frame_written calc row c fv s) ! row
               \<and> frames u' ! q = frames (frame_written calc row c fv s) ! row"
    and u2: "row_in_sync calc e (times_a s ! row) (frames s ! row) \<longrightarrow>
               row_in_sync calc e (times_a u' ! q) (frames u' ! q)"
    and u3: "list_all2 (row_in_sync calc e) (times_a s) (frames s) \<longrightarrow>
               list_all2 (row_in_sync calc e) (times_a u') (frames u')"
    by blast
  have t4: "c \<noteq> DURN \<and> frames s ! row = frame_image calc (times_a s ! row)
              \<longrightarrow> frames s' ! r = frame_image calc (times_a s' ! r)"
  proof (cases "tv = get_col c (times_a s ! row)")
    case True
    with t0 show ?thesis by simp
  next
    case False
    with t1 tw assms(4) show ?thesis
      by (cases c; cases "times_a s ! row"; cases "frames s ! row")
         (simp_all add: frame_image_def)
  qed
  have u4: "c \<noteq> DURN \<and> times_a s ! row = time_image calc (frames s ! row)
              \<longrightarrow> times_a u' ! q = time_image calc (frames u' ! q)"
  proof (cases "fv = get_col c (frames s ! row)")
    case True
    with u0 show ?thesis by simp
  next
    case False
    with u1 fw assms(4) show ?thesis
      by (cases c; cases "times_a s ! row"; cases "frames s ! row")
         (simp_all add: time_image_def)
  qed
  have t5: "tv \<noteq> get_col c (times_a s ! row) \<longrightarrow>
                times_a s' ! r =
                  (case c of
                     SHOW \<Rightarrow> (tv, get_col HIDE (times_a s ! row),
                               get_time_duration calc tv (get_col HIDE (times_a s ! row)))
                   | HIDE \<Rightarrow> (get_col SHOW (times_a s ! row), tv,
                               get_time_duration calc (get_col SHOW (times_a s ! row)) tv)
                   | DURN \<Rightarrow> (get_col SHOW (times_a s ! row),
                               add_times calc (get_col SHOW (times_a s ! row)) tv, tv))
                \<and> frames s' ! r =
                  (case c of
                     SHOW \<Rightarrow> (time_to_frame calc tv, get_col HIDE (frames s ! row),
                               get_frame_duration calc (time_to_frame calc tv)
                                 (get_col HIDE (frames s ! row)))
                   | HIDE \<Rightarrow> (get_col SHOW (frames s ! row), time_to_frame calc tv,
                               get_frame_duration calc (get_col SHOW (frames s ! row))
                                 (time_to_frame calc tv))
                   | DURN \<Rightarrow> (get_col SHOW (frames s ! row),
                               get_col SHOW (frames s ! row) + time_to_frame calc tv,
                               time_to_frame calc tv))
                \<and> get_col c (frames s' ! r) = time_to_frame calc (get_col c (times_a s' ! r))
                \<and> get_col DURN (times_a s' ! r) =
                    get_time_duration calc (get_col SHOW (times_a s' ! r))
                      (get_col HIDE (times_a s' ! r))
                \<and> get_col DURN (frames s' ! r) =
                    get_col HIDE (frames s' ! r) - get_col SHOW (frames s' ! r)"
    using t1 tw assms(3,4)
    by (cases c; cases "times_a s ! row"; cases "frames s ! row") simp_all
  have u5: "fv \<noteq> get_col c (frames s ! row) \<longrightarrow>
                times_a u' ! q =
                  (case c of
                     SHOW \<Rightarrow> (frame_to_time calc fv, get_col HIDE (times_a s ! row),
                               get_time_duration calc (frame_to_time calc fv)
                                 (get_col HIDE (times_a s ! row)))
                   | HIDE \<Rightarrow> (get_col SHOW (times_a s ! row), frame_to_time calc fv,
                               get_time_duration calc (get_col SHOW (times_a s ! row))
                                 (frame_to_time calc fv))
                   | DURN \<Rightarrow> (get_col SHOW (times_a s ! row),
                               add_times calc (get_col SHOW (times_a s ! row))
                                 (frame_to_time calc fv),
                               frame_to_time calc fv))
                \<and> frames u' ! q =
                  (case c of
                     SHOW \<Rightarrow> (fv, get_col HIDE (frames s ! row),
                               get_frame_duration calc fv (get_col HIDE (frames s ! row)))
                   | HIDE \<Rightarrow> (get_col SHOW (frames s ! row), fv,
                               get_frame_duration calc (get_col SHOW (frames s ! row)) fv)
                   | DURN \<Rightarrow> (get_col SHOW (frames s ! row),
                               get_col SHOW (frames s ! row) + fv, fv))
                \<and> get_col c (times_a u' ! q) = frame_to_time calc (get_col c (frames u' ! q))
                \<and> get_col DURN (times_a u' ! q) =
                    get_time_duration calc (get_col SHOW (times_a u' ! q))
                      (get_col HIDE (times_a u' ! q))
                \<and> get_col DURN (frames u' ! q) =
                    get_col HIDE (frames u' ! q) - get_col SHOW (frames u' ! q)"
    using u1 fw assms(3,4)
    by (cases c; cases "times_a s ! row"; cases "frames s ! row") simp_all
  show ?thesis
    apply (rule conjI)
     apply (rule exI [of _ s'], rule exI [of _ r])
     apply (intro conjI)
          apply (rule t)
         apply (rule t2)
        apply (rule t3)
       apply (rule t4)
      apply (rule t0)
     apply (rule t5)
    apply (rule exI [of _ u'], rule exI [of _ q])
    apply (intro conjI)
         apply (rule u)
        apply (rule u2)
       apply (rule u3)
      apply (rule u4)
     apply (rule u0)
    apply (rule u5)
    done
qed


theorem position_fields_after_write_witness:
  "parallel offbeat_project \<and> 0 < length (times_a offbeat_project)
   \<and> (\<forall>a d. get_time_duration example_calc a (add_times example_calc a d) = d)
   \<and> (\<forall>a b. get_frame_duration example_calc a b = b - a)
   \<and> (\<forall>a d. \<bar>time_to_frame example_calc (add_times example_calc a d)
                - (time_to_frame example_calc a + time_to_frame example_calc d)\<bar> \<le> 1)
   \<and> time_to_frame example_calc (frame_to_time example_calc 60) = 60
   \<and> frames offbeat_project ! 0 = frame_image example_calc (times_a offbeat_project ! 0)
   \<and> row_in_sync example_calc 1 (times_a offbeat_project ! 0) (frames offbeat_project ! 0)
   \<and> (\<exists>s' r. set_time example_calc 0 DURN 10 DO offbeat_project = Inr (s', r)
         \<and> times_a s' ! r = (2010, 2020, 10)
         \<and> frames s' ! r = (50, 50, 0)
         \<and> frame_image example_calc (times_a s' ! r) = (50, 51, 1)
         \<and> row_in_sync example_calc 1 (times_a s' ! r) (frames s' ! r))
   \<and> (\<exists>s' r. set_frame example_calc 0 HIDE 60 DO offbeat_project = Inr (s', r)
         \<and> times_a s' ! r = (2010, 2400, 390)
         \<and> frames s' ! r = (50, 60, 10)
         \<and> row_in_sync example_calc 1 (times_a s' ! r) (frames s' ! r))"
proof -
  have h: "parallel offbeat_project" "0 < length (times_a offbeat_project)"
    "\<forall>a d. get_time_duration example_calc a (add_times example_calc a d) = d"
    "\<forall>a b. get_frame_duration example_calc a b = b - a"
    by (simp_all add: offbeat_project_def example_calc_def parallel_def)
  have k: "\<forall>a d. \<bar>time_to_frame example_calc (add_times example_calc a d)
                - (time_to_frame example_calc a + time_to_frame example_calc d)\<bar> \<le> 1"
    by (intro allI example_calc_rounding)
  have j: "time_to_frame example_calc (frame_to_time example_calc 60) = 60"
    by (simp add: example_calc_def)
  have i: "frames offbeat_project ! 0 = frame_image example_calc (times_a offbeat_project ! 0)"
    "row_in_sync example_calc 1 (times_a offbeat_project ! 0) (frames offbeat_project ! 0)"
    by (simp_all add: offbeat_project_def example_calc_def frame_image_def row_in_sync_def)
  have v: "(10::nat) \<noteq> get_col DURN (times_a offbeat_project ! 0)"
    "(60::int) \<noteq> get_col HIDE (frames offbeat_project ! 0)"
    by (simp_all add: offbeat_project_def)
  from position_fields_after_write [OF h k j, where c = DURN and tv = 10 and reg = DO]
  obtain s' r where
    t: "set_time example_calc 0 DURN 10 DO offbeat_project = Inr (s', r)"
    and t2: "row_in_sync example_calc 1 (times_a offbeat_project ! 0)
               (frames offbeat_project ! 0) \<longrightarrow>
             row_in_sync example_calc 1 (times_a s' ! r) (frames s' ! r)"
    and t5: "10 \<noteq> get_col DURN (times_a offbeat_project ! 0) \<longrightarrow>
             times_a s' ! r =
               (case DURN of
                  SHOW \<Rightarrow> (10, get_col HIDE (times_a offbeat_project ! 0),
                            get_time_duration example_calc 10
                              (get_col HIDE (times_a offbeat_project ! 0)))
                | HIDE \<Rightarrow> (get_col SHOW (times_a offbeat_project ! 0), 10,
                            get_time_duration example_calc
                              (get_col SHOW (times_a offbeat_project ! 0)) 10)
                | DURN \<Rightarrow> (get_col SHOW (times_a offbeat_project ! 0),
                            add_times example_calc
                              (get_col SHOW (times_a offbeat_project ! 0)) 10, 10))
             \<and> frames s' ! r =
               (case DURN of
                  SHOW \<Rightarrow> (time_to_frame example_calc 10,
                            get_col HIDE (frames offbeat_project ! 0),
                            get_frame_duration example_calc (time_to_frame example_calc 10)
                              (get_col HIDE (frames offbeat_project ! 0)))
                | HIDE \<Rightarrow> (get_col SHOW (frames offbeat_project ! 0),
                            time_to_frame example_calc 10,
                            get_frame_duration example_calc
                              (get_col SHOW (frames offbeat_project ! 0))
                              (time_to_frame example_calc 10))
                | DURN \<Rightarrow> (get_col SHOW (frames offbeat_project ! 0),
                            get_col SHOW (frames offbeat_project ! 0)
                              + time_to_frame example_calc 10,
                            time_to_frame example_calc 10))
             \<and> get_col DURN (frames s' ! r) =
                 time_to_frame example_calc (get_col DURN (times_a s' ! r))
             \<and> get_col DURN (times_a s' ! r) =
                 get_time_duration example_calc (get_col SHOW (times_a s' ! r))
                   (get_col HIDE (times_a s' ! r))
             \<and> get_col DURN (frames s' ! r) =
                 get_col HIDE (frames s' ! r) - get_col SHOW (frames s' ! r)"
    by blast
  from t5 v(1) have tt: "times_a s' ! r = (2010, 2020, 10)" "frames s' ! r = (50, 50, 0)"
    by (simp_all add: offbeat_project_def example_calc_def)
  from t2 i(2) have ts: "row_in_sync example_calc 1 (times_a s' ! r) (frames s' ! r)"
    by (rule mp)
  have ti: "frame_image example_calc (times_a s' ! r) = (50, 51, 1)"
    unfolding tt by (simp add: frame_image_def example_calc_def)
  have x: "\<exists>s' r. set_time example_calc 0 DURN 10 DO offbeat_project = Inr (s', r)
         \<and> times_a s' ! r = (2010, 2020, 10)
         \<and> frames s' ! r = (50, 50, 0)
         \<and> frame_image example_calc (times_a s' ! r) = (50, 51, 1)
         \<and> row_in_sync example_calc 1 (times_a s' ! r) (frames s' ! r)"
    apply (rule exI [of _ s'], rule exI [of _ r])
    apply (intro conjI)
        apply (rule t)
       apply (rule tt(1))
      apply (rule tt(2))
     apply (rule ti)
    apply (rule ts)
    done
  from position_fields_after_write [OF h k j, where c = HIDE and tv = 10 and reg = DO]
  obtain u' q where
    u: "set_frame example_calc 0 HIDE 60 DO offbeat_project = Inr (u', q)"
    and u2: "row_in_sync example_calc 1 (times_a offbeat_project ! 0)
               (frames offbeat_project ! 0) \<longrightarrow>
             row_in_sync example_calc 1 (times_a u' ! q) (frames u' ! q)"
    and u5: "60 \<noteq> get_col HIDE (frames offbeat_project ! 0) \<longrightarrow>
             times_a u' ! q =
               (case HIDE of
                  SHOW \<Rightarrow> (frame_to_time example_calc 60,
                            get_col HIDE (times_a offbeat_project ! 0),
                            get_time_duration example_calc (frame_to_time example_calc 60)
                              (get_col HIDE (times_a offbeat_project ! 0)))
                | HIDE \<Rightarrow> (get_col SHOW (times_a offbeat_project ! 0),
                            frame_to_time example_calc 60,
                            get_time_duration example_calc
                              (get_col SHOW (times_a offbeat_project ! 0))
                              (frame_to_time example_calc 60))
                | DURN \<Rightarrow> (get_col SHOW (times_a offbeat_project ! 0),
                            add_times example_calc
                              (get_col SHOW (times_a offbeat_project ! 0))
                              (frame_to_time example_calc 60),
                            frame_to_time example_calc 60))
             \<and> frames u' ! q =
               (case HIDE of
                  SHOW \<Rightarrow> (60, get_col HIDE (frames offbeat_project ! 0),
                            get_frame_duration example_calc 60
                              (get_col HIDE (frames offbeat_project ! 0)))
                | HIDE \<Rightarrow> (get_col SHOW (frames offbeat_project ! 0), 60,
                            get_frame_duration example_calc
                              (get_col SHOW (frames offbeat_project ! 0)) 60)
                | DURN \<Rightarrow> (get_col SHOW (frames offbeat_project ! 0),
                            get_col SHOW (frames offbeat_project ! 0) + 60, 60))
             \<and> get_col HIDE (times_a u' ! q) =
                 frame_to_time example_calc (get_col HIDE (frames u' ! q))
             \<and> get_col DURN (times_a u' ! q) =
                 get_time_duration example_calc (get_col SHOW (times_a u' ! q))
                   (get_col HIDE (times_a u' ! q))
             \<and> get_col DURN (frames u' ! q) =
                 get_col HIDE (frames u' ! q) - get_col SHOW (frames u' ! q)"
    by blast
  from u5 v(2) have ut: "times_a u' ! q = (2010, 2400, 390)" "frames u' ! q = (50, 60, 10)"
    by (simp_all add: offbeat_project_def example_calc_def)
  from u2 i(2) have us: "row_in_sync example_calc 1 (times_a u' ! q) (frames u' ! q)"
    by (rule mp)
  have y: "\<exists>s' r. set_frame example_calc 0 HIDE 60 DO offbeat_project = Inr (s', r)
         \<and> times_a s' ! r = (2010, 2400, 390)
         \<and> frames s' ! r = (50, 60, 10)
         \<and> row_in_sync example_calc 1 (times_a s' ! r) (frames s' ! r)"
    apply (rule exI [of _ u'], rule exI [of _ q])
    apply (intro conjI)
       apply (rule u)
      apply (rule ut(1))
     apply (rule ut(2))
    apply (rule us)
    done
  from h k j i x y show ?thesis by (intro conjI)
qed


section \<open>Removing subtitles: claim C7\<close>

lemma nths_everything: "nths xs UNIV = xs"
  by (rule nths_all) simp

lemma nths_eq_on:
  assumes "\<And>i. i < length xs \<Longrightarrow> (i \<in> A) = (i \<in> B)"
  shows "nths xs A = nths xs B"
proof -
  have "filter (\<lambda>p. snd p \<in> A) (zip xs [0..<length xs]) =
        filter (\<lambda>p. snd p \<in> B) (zip xs [0..<length xs])"
    by (rule filter_cong) (auto simp: set_zip assms)
  then show ?thesis by (simp add: nths_def)
qed

lemma nths_list_pop:
  assumes "d < length xs" and "\<forall>r\<in>S. r < d"
  shows "nths (list_pop d xs) (- S) = nths xs (- insert d S)"
proof -
  have a: "{j. j + d \<in> - S} = UNIV" using assms(2) by auto
  have b: "{j. Suc (j + d) \<notin> S} = UNIV" using assms(2) by auto
  have a': "{j. j + d \<notin> S} = UNIV" using assms(2) by auto
  have c: "{j. j + d \<in> - insert d S} = {j. 0 < j}" using assms(2) by auto
  have "nths xs (- insert d S) =
        nths (take d xs @ xs ! d # drop (Suc d) xs) (- insert d S)"
    using assms(1) by (simp add: id_take_nth_drop [symmetric])
  also have "\<dots> = nths (take d xs) (- insert d S) @ drop (Suc d) xs"
    using assms(1) by (simp add: nths_append nths_Cons min_def b nths_everything)
  also have "nths (take d xs) (- insert d S) = nths (take d xs) (- S)"
    by (rule nths_eq_on) auto
  finally show ?thesis
    using assms(1) by (simp add: list_pop_def nths_append min_def a a' nths_everything)
qed

lemma nth_list_pop_before: "r < d \<Longrightarrow> d < length xs \<Longrightarrow> list_pop d xs ! r = xs ! r"
  by (simp add: list_pop_def nth_append)

lemma map_nth_list_pop:
  "\<forall>r\<in>set ds. r < d \<Longrightarrow> d < length xs \<Longrightarrow> map ((!) (list_pop d xs)) ds = map ((!) xs) ds"
  by (simp add: nth_list_pop_before)

lemma rows_removed_empty: "rows_removed {} s = s"
  by (simp add: rows_removed_def nths_everything)

lemma remove_loop_descending:
  "sorted_wrt (>) ds \<Longrightarrow> \<forall>r\<in>set ds. r < length (times_a s) \<Longrightarrow> parallel s \<Longrightarrow>
   remove_loop ds (ts, fs, ms, trs) s =
     Inr ((map ((!) (times_a s)) (rev ds) @ ts, map ((!) (frames s)) (rev ds) @ fs,
           map ((!) (main_texts s)) (rev ds) @ ms, map ((!) (tran_texts s)) (rev ds) @ trs),
          rows_removed (set ds) s)"
proof (induction ds arbitrary: s ts fs ms trs)
  case Nil
  show ?case by (simp add: rows_removed_empty)
next
  case (Cons d ds)
  let ?s' = "s\<lparr>times_a := list_pop d (times_a s), frames := list_pop d (frames s),
                main_texts := list_pop d (main_texts s),
                tran_texts := list_pop d (tran_texts s)\<rparr>"
  have d: "d < length (times_a s)" "d < length (frames s)" "d < length (main_texts s)"
    "d < length (tran_texts s)"
    using Cons.prems(2,3) by (simp_all add: parallel_def)
  have lt: "\<forall>r\<in>set ds. r < d" and srt: "sorted_wrt (>) ds"
    using Cons.prems(1) by auto
  have p': "parallel ?s'" using Cons.prems(3) d by (simp add: parallel_def length_list_pop)
  have b': "\<forall>r\<in>set ds. r < length (times_a ?s')"
    using lt d(1) by (auto simp: length_list_pop)
  have step: "remove_loop (d # ds) (ts, fs, ms, trs) s =
        remove_loop ds (times_a s ! d # ts, frames s ! d # fs,
                        main_texts s ! d # ms, tran_texts s ! d # trs) ?s'"
    using d by simp
  have m: "map ((!) (list_pop d (times_a s))) (rev ds) = map ((!) (times_a s)) (rev ds)"
    "map ((!) (list_pop d (frames s))) (rev ds) = map ((!) (frames s)) (rev ds)"
    "map ((!) (list_pop d (main_texts s))) (rev ds) = map ((!) (main_texts s)) (rev ds)"
    "map ((!) (list_pop d (tran_texts s))) (rev ds) = map ((!) (tran_texts s)) (rev ds)"
    using lt d by (simp_all add: map_nth_list_pop)
  have r: "rows_removed (set ds) ?s' = rows_removed (set (d # ds)) s"
    using lt d by (simp add: rows_removed_def nths_list_pop)
  show ?case
    unfolding step Cons.IH [OF srt b' p'] using m r by simp
qed

lemma descending_rev_sort: "distinct rows \<Longrightarrow> sorted_wrt (>) (rev (sort (rows :: nat list)))"
proof -
  assume "distinct rows"
  then have "sorted_wrt (<) (sort rows)"
    by (simp add: strict_sorted_iff)
  then show ?thesis by (simp add: sorted_wrt_rev)
qed

text \<open>
  Claim C7 says that \<^verbatim>\<open>remove_subtitles\<close> returns the removed quadruple. It returns
  \<^verbatim>\<open>None\<close>: on the example project the call for the rows 2 and 0 completes, and its
  value is not the quadruple of the two removed rows.
\<close>

theorem remove_subtitles_returns_none:
  "remove_subtitles_value [2, 0] DO example_project = Inr None
   \<and> remove_subtitles_value [2, 0] DO example_project \<noteq>
       Inr (Some ([(0, 1000, 1000), (4000, 5000, 1000)], [(0, 25, 25), (100, 125, 25)],
                  [''one'', ''three''], [''eins'', ''drei'']))"
  by (simp add: remove_subtitles_value_def remove_subtitles_def example_project_def
        list_pop_def Let_def)

text \<open>
  Claim C7 as the code has it. \<^verbatim>\<open>remove_subtitles\<close> takes any set of row indices of the
  project (a list without repetition, in any order, contiguous or not), pops them from
  the highest to the lowest, so that each pop meets the row that the index named in
  the project as it was, and leaves the four lists without exactly those rows. The
  removed quadruple is not returned (the call returns \<^verbatim>\<open>None\<close>): it is the payload of
  the registered action, whose revert call is \<^verbatim>\<open>insert_subtitles\<close> with the ascending
  rows and, in that order, the removed times, frames, main texts and translation texts.
\<close>

theorem remove_subtitles_payload:
  assumes "parallel s" and "distinct rows" and "\<forall>row\<in>set rows. row < length (times_a s)"
  shows "\<exists>a s1. remove_subtitles rows reg s = Inr (register_action reg a s1)
           \<and> times_a s1 = nths (times_a s) (- set rows)
           \<and> frames s1 = nths (frames s) (- set rows)
           \<and> main_texts s1 = nths (main_texts s) (- set rows)
           \<and> tran_texts s1 = nths (tran_texts s) (- set rows)
           \<and> undoables s1 = undoables s \<and> redoables s1 = redoables s
           \<and> reverts a = [Insert_subtitles (sort rows)
                             (map ((!) (times_a s)) (sort rows))
                             (map ((!) (frames s)) (sort rows))
                             (map ((!) (main_texts s)) (sort rows))
                             (map ((!) (tran_texts s)) (sort rows))]
           \<and> removed_rows a = sort rows
           \<and> remove_subtitles_value rows reg s = Inr None"
proof -
  have b: "\<forall>r\<in>set (rev (sort rows)). r < length (times_a s)"
    using assms(3) by simp
  note l = remove_loop_descending [OF descending_rev_sort [OF assms(2)] b assms(1),
             of "[]" "[]" "[]" "[]"]
  show ?thesis
    apply (rule exI [of _ "(new_action [MAIN, TRAN] ''Removing subtitles''
              (Insert_subtitles (sort rows)
                 (map ((!) (times_a s)) (sort rows))
                 (map ((!) (frames s)) (sort rows))
                 (map ((!) (main_texts s)) (sort rows))
                 (map ((!) (tran_texts s)) (sort rows))))\<lparr>removed_rows := sort rows\<rparr>"])
    apply (rule exI [of _ "rows_removed (set rows) s"])
    using l
    by (simp add: remove_subtitles_value_def remove_subtitles_def rows_removed_def
          new_action_def Let_def)
qed

theorem remove_subtitles_payload_witness:
  "parallel example_project \<and> distinct [2, 0 :: nat]
   \<and> 2 < length (times_a example_project) \<and> 0 < length (times_a example_project)
   \<and> (\<exists>a s1. remove_subtitles [2, 0] DO example_project = Inr (register_action DO a s1)
         \<and> times_a s1 = [(2000, 3000, 1000)]
         \<and> main_texts s1 = [''two'']
         \<and> reverts a = [Insert_subtitles [0, 2]
                           [(0, 1000, 1000), (4000, 5000, 1000)]
                           [(0, 25, 25), (100, 125, 25)]
                           [''one'', ''three''] [''eins'', ''drei'']])"
proof -
  have h: "parallel example_project" "distinct [2, 0 :: nat]"
    "\<forall>row\<in>set [2, 0]. row < length (times_a example_project)"
    by (simp_all add: example_project_def parallel_def)
  have n: "nths (times_a example_project) (- set [2, 0]) = [(2000, 3000, 1000)]"
    "nths (main_texts example_project) (- set [2, 0]) = [''two'']"
    by (simp_all add: example_project_def nths_Cons)
  have m: "sort [2, 0 :: nat] = [0, 2]"
    "map ((!) (times_a example_project)) [0, 2] = [(0, 1000, 1000), (4000, 5000, 1000)]"
    "map ((!) (frames example_project)) [0, 2] = [(0, 25, 25), (100, 125, 25)]"
    "map ((!) (main_texts example_project)) [0, 2] = [''one'', ''three'']"
    "map ((!) (tran_texts example_project)) [0, 2] = [''eins'', ''drei'']"
    by (simp_all add: example_project_def)
  from remove_subtitles_payload [OF h, of DO]
  have "\<exists>a s1. remove_subtitles [2, 0] DO example_project = Inr (register_action DO a s1)
         \<and> times_a s1 = [(2000, 3000, 1000)]
         \<and> main_texts s1 = [''two'']
         \<and> reverts a = [Insert_subtitles [0, 2]
                           [(0, 1000, 1000), (4000, 5000, 1000)]
                           [(0, 25, 25), (100, 125, 25)]
                           [''one'', ''three''] [''eins'', ''drei'']]"
    unfolding n m by blast
  then show ?thesis using h(1,2) by (simp add: example_project_def)
qed


section \<open>Undo after a resort: claim C1\<close>

lemmas undo_defs =
  undo_def redo_def run_revert_def group_actions_def

text \<open>
  Claim C1 says that an editing operation followed by \<^verbatim>\<open>undo\<close> restores the four lists.
  The project below is valid: the lists are parallel, the rows are sorted, the frames
  are the images of the times. \<^verbatim>\<open>set_time(0, SHOW, 500)\<close> moves row 0 behind row 1 and
  registers \<^verbatim>\<open>set_time(1, SHOW, 0)\<close> as its revert. The undo writes the original show
  time back and resorts: \<^verbatim>\<open>bisect_right\<close> places the row after the row with the equal
  triple, at index 1 where it is, so nothing moves. Times and frames are as before the
  edit, the main texts and the translation texts of the two rows are exchanged.
\<close>

theorem undo_swaps_twin_rows:
  "parallel twins_project \<and> sorted (times_a twins_project)
   \<and> frames twins_project = map (frame_image example_calc) (times_a twins_project)
   \<and> set_time example_calc 0 SHOW 500 DO twins_project =
       Inr (twins_project
              \<lparr>times_a := [(0, 1000, 1000), (500, 1000, 500)],
               frames := [(0, 25, 25), (13, 25, 12)],
               main_texts := [''second'', ''first''],
               tran_texts := [''zweite'', ''erste''],
               undoables := [(new_action [MAIN] ''Editing time'' (Set_time 1 SHOW 0))
                               \<lparr>updated_rows := [0, 1], updated_positions := []\<rparr>]\<rparr>, 1)
   \<and> undo example_calc
         (twins_project
              \<lparr>times_a := [(0, 1000, 1000), (500, 1000, 500)],
               frames := [(0, 25, 25), (13, 25, 12)],
               main_texts := [''second'', ''first''],
               tran_texts := [''zweite'', ''erste''],
               undoables := [(new_action [MAIN] ''Editing time'' (Set_time 1 SHOW 0))
                               \<lparr>updated_rows := [0, 1], updated_positions := []\<rparr>]\<rparr>) =
       Inr (twins_project
              \<lparr>main_texts := [''second'', ''first''],
               tran_texts := [''zweite'', ''erste''],
               redoables := [(new_action [MAIN] ''Editing time'' (Set_time 1 SHOW 500))
                               \<lparr>updated_rows := [], updated_positions := [1]\<rparr>]\<rparr>)
   \<and> main_texts twins_project = [''first'', ''second'']
   \<and> tran_texts twins_project = [''erste'', ''zweite'']"
  by (simp add: run_defs undo_defs twins_project_def example_calc_def parallel_def
        frame_image_def upt_rec)

section \<open>Blank rows between overlapping subtitles: claim C2\<close>

text \<open>
  Claim C2 says that the show values stay in ascending order after every operation that
  meets its documented preconditions. \<^verbatim>\<open>insert_subtitles([1])\<close> without data, on two rows
  of which the first hides after the second shows, starts the blank row at the hide
  value of the row before it (100) and ends it at the show value of the row after it
  (10): the show values become 0, 100, 10 in frame mode and 0, 4000, 400 in time mode.
  The rows argument is a single range, which is all that \<^verbatim>\<open>_insert_blank\<close> asks for.
\<close>

theorem insert_blank_breaks_order:
  "sorted (map (get_col SHOW) (frames overlap_project))
   \<and> sorted (map (get_col SHOW) (times_a overlap_project))
   \<and> insert_subtitles example_calc [1] None None None None DO overlap_project =
       Inr (overlap_project
              \<lparr>times_a := [(0, 4000, 4000), (4000, 400, 0), (400, 800, 400)],
               frames := [(0, 100, 100), (100, 10, - 90), (10, 20, 10)],
               main_texts := [''long'', [], ''short''],
               tran_texts := [''lang'', [], ''kurz''],
               undoables := [(new_action [MAIN, TRAN] ''Inserting subtitles''
                                (Remove_subtitles [1]))\<lparr>inserted_rows := [1]\<rparr>]\<rparr>)
   \<and> insert_subtitles example_calc [1] None None None None DO
         (overlap_project\<lparr>main_file := Some TIME\<rparr>) =
       Inr (overlap_project
              \<lparr>times_a := [(0, 4000, 4000), (4000, 400, 0), (400, 800, 400)],
               frames := [(0, 100, 100), (100, 10, - 90), (10, 20, 10)],
               main_texts := [''long'', [], ''short''],
               tran_texts := [''lang'', [], ''kurz''],
               main_file := Some TIME,
               undoables := [(new_action [MAIN, TRAN] ''Inserting subtitles''
                                (Remove_subtitles [1]))\<lparr>inserted_rows := [1]\<rparr>]\<rparr>)
   \<and> \<not> sorted (map (get_col SHOW)
                [(0, 100, 100), (100, 10, - 90), (10 :: int, 20 :: int, 10 :: int)])
   \<and> \<not> sorted (map (get_col SHOW)
                [(0, 4000, 4000), (4000, 400, 0), (400 :: nat, 800 :: nat, 400 :: nat)])"
  by (simp add: run_defs insert_subtitles_def insert_blank_def insert_row_def
        overlap_project_def example_calc_def upt_rec py_round_def)


section \<open>Pasting texts: claim C8\<close>

lemma list_insert_end: "length xs = n \<Longrightarrow> list_insert n x xs = xs @ [x]"
  by (simp add: list_insert_def)

lemma insert_row_end:
  assumes "parallel s"
  shows "insert_row (length (times_a s) + k) t f [] []
           (rows_appended (map gt [0..<k]) (map gf [0..<k]) k s) =
         rows_appended (map gt [0..<k] @ [t]) (map gf [0..<k] @ [f]) (Suc k) s"
proof -
  have l: "length (times_a s @ map gt [0..<k]) = length (times_a s) + k"
    "length (frames s @ map gf [0..<k]) = length (times_a s) + k"
    "length (main_texts s @ replicate k []) = length (times_a s) + k"
    "length (tran_texts s @ replicate k []) = length (times_a s) + k"
    using assms by (simp_all add: parallel_def)
  show ?thesis
    by (simp add: insert_row_def rows_appended_def list_insert_end [OF l(1)]
        list_insert_end [OF l(2)] list_insert_end [OF l(3)] list_insert_end [OF l(4)]
        replicate_append_same)
qed

lemma fold_insert_row_end:
  assumes "parallel s"
  shows "fold (\<lambda>i. insert_row (length (times_a s) + i) (gt i) (gf i) [] []) [0..<k] s =
         rows_appended (map gt [0..<k]) (map gf [0..<k]) k s"
proof (induction k)
  case 0
  show ?case by (simp add: rows_appended_def)
next
  case (Suc k)
  have "fold (\<lambda>i. insert_row (length (times_a s) + i) (gt i) (gf i) [] []) [0..<Suc k] s =
        insert_row (length (times_a s) + k) (gt k) (gf k) [] []
          (fold (\<lambda>i. insert_row (length (times_a s) + i) (gt i) (gf i) [] []) [0..<k] s)"
    by simp
  also have "\<dots> = rows_appended (map gt [0..<k] @ [gt k]) (map gf [0..<k] @ [gf k]) (Suc k) s"
    unfolding Suc.IH by (rule insert_row_end [OF assms])
  finally show ?case by simp
qed

lemma Min_upt: "0 < k \<Longrightarrow> Min (set [n ..< n + k]) = (n::nat)"
  by (rule Min_eqI) auto

lemma insert_blank_at_end:
  assumes "parallel s" and "0 < k"
  shows "\<exists>ts fs. length ts = k \<and> length fs = k
           \<and> insert_blank calc [length (times_a s) ..< length (times_a s) + k] s =
               Inr (rows_appended ts fs k s)"
proof -
  let ?n = "length (times_a s)"
  have ne: "([?n ..< ?n + k] = []) = False" using assms(2) by simp
  have f: "length (frames s) = ?n" using assms(1) by (simp add: parallel_def)
  have c: "(0 < ?n \<and> ?n \<le> ?n - 1) = False" "(?n < ?n) = False"
    by (cases "times_a s"; simp)+
  show ?thesis
  proof (cases "get_mode s")
    case TIME
    show ?thesis
      apply (simp only: insert_blank_def ne Min_upt [OF assms(2)] Let_def if_False TIME
               mode.case length_upt add_diff_cancel_left' c simp_thms
               fold_insert_row_end [OF assms(1)])
      apply (rule exI, rule exI, intro conjI)
        prefer 3
        apply (rule refl)
       apply simp_all
      done
  next
    case FRAME
    show ?thesis
      apply (simp only: insert_blank_def ne Min_upt [OF assms(2)] Let_def if_False FRAME
               mode.case length_upt add_diff_cancel_left' f c simp_thms
               fold_insert_row_end [OF assms(1)])
      apply (rule exI, rule exI, intro conjI)
        prefer 3
        apply (rule refl)
       apply simp_all
      done
  qed
qed


lemma length_texts_replaced: "length (texts_replaced rs vs t) = length t"
  by (induction rs vs t rule: texts_replaced.induct) simp_all

lemma replace_loop_distinct:
  "distinct rows \<Longrightarrow> \<forall>r\<in>set rows. r < length t \<Longrightarrow> length vals = length rows \<Longrightarrow>
   replace_loop rows vals t orig = Inr (texts_replaced rows vals t, orig @ map ((!) t) rows)"
proof (induction rows arbitrary: vals t orig)
  case Nil
  then show ?case by simp
next
  case (Cons r rows)
  from Cons.prems(3) obtain v vs where vals: "vals = v # vs" and l: "length vs = length rows"
    by (cases vals) auto
  have b: "\<forall>x\<in>set rows. x < length (t[r := v])" using Cons.prems(2) by simp
  have d: "distinct rows" and nin: "r \<notin> set rows" using Cons.prems(1) by auto
  have m: "map ((!) (t[r := v])) rows = map ((!) t) rows"
  proof (rule map_cong [OF refl])
    fix x
    assume "x \<in> set rows"
    then have "r \<noteq> x" using nin by auto
    then show "t[r := v] ! x = t ! x" by simp
  qed
  show ?case
    using Cons.prems(2) Cons.IH [OF d b l, of "orig @ [t ! r]"] by (simp add: vals m)
qed

lemma texts_replaced_update:
  "r \<notin> set rs \<Longrightarrow> (texts_replaced rs vs t)[r := x] = texts_replaced rs vs (t[r := x])"
proof (induction rs vs t rule: texts_replaced.induct)
  case (1 r' rs v vs texts)
  then show ?case by (simp add: list_update_swap)
qed simp_all

lemma texts_replaced_restore:
  "distinct rows \<Longrightarrow> length vals = length rows \<Longrightarrow>
   texts_replaced rows (map ((!) t) rows) (texts_replaced rows vals t) = t"
proof (induction rows arbitrary: vals t)
  case Nil
  then show ?case by simp
next
  case (Cons r rows)
  from Cons.prems(2) obtain v vs where vals: "vals = v # vs" and l: "length vs = length rows"
    by (cases vals) auto
  have d: "distinct rows" and nin: "r \<notin> set rows" using Cons.prems(1) by auto
  have m: "map ((!) (t[r := v])) rows = map ((!) t) rows"
  proof (rule map_cong [OF refl])
    fix x
    assume "x \<in> set rows"
    then have "r \<noteq> x" using nin by auto
    then show "t[r := v] ! x = t ! x" by simp
  qed
  have "texts_replaced (r # rows) (map ((!) t) (r # rows)) (texts_replaced (r # rows) vals t) =
        texts_replaced rows (map ((!) t) rows) ((texts_replaced rows vs (t[r := v]))[r := t ! r])"
    by (simp add: vals)
  also have "(texts_replaced rows vs (t[r := v]))[r := t ! r] = texts_replaced rows vs t"
    by (simp add: texts_replaced_update [OF nin])
  finally show ?case using Cons.IH [OF d l, of t] by simp
qed

lemma nths_appended:
  assumes "length ys = k"
  shows "nths (xs @ ys) (- set [length xs ..< length xs + k]) = xs"
proof -
  have a: "nths xs (- set [length xs ..< length xs + k]) = nths xs UNIV"
    by (rule nths_eq_on) simp
  have b: "nths ys {j. j + length xs \<in> - set [length xs ..< length xs + k]} = nths ys {}"
    by (rule nths_eq_on) (simp add: assms)
  show ?thesis
    unfolding nths_append a b by (simp add: nths_everything)
qed

lemma picked_rows:
  "map (\<lambda>(i, v). start + i) (filter (\<lambda>(i, v). v \<noteq> None) (enumerate k data)) =
   map (\<lambda>i. start + i) (filter (\<lambda>i. data ! (i - k) \<noteq> None) [k ..< k + length data])"
proof (induction data arbitrary: k)
  case Nil
  show ?case by simp
next
  case (Cons d ds)
  let ?L = "[Suc k ..< Suc k + length ds]"
  have f: "filter (\<lambda>i. (d # ds) ! (i - k) \<noteq> None) ?L =
           filter (\<lambda>i. ds ! (i - Suc k) \<noteq> None) ?L"
    by (rule filter_cong) (auto simp: nth_Cons')
  have "k < k + length (d # ds)" by simp
  from upt_conv_Cons [OF this]
  have u: "[k ..< k + length (d # ds)] = k # ?L"
    by (simp del: upt_Suc)
  have g: "filter (\<lambda>i. (d # ds) ! (i - k) \<noteq> None) (k # ?L) =
           (if d \<noteq> None then [k] else []) @ filter (\<lambda>i. ds ! (i - Suc k) \<noteq> None) ?L"
    unfolding filter.simps f by simp
  have "map (\<lambda>(i, v). start + i) (filter (\<lambda>(i, v). v \<noteq> None) (enumerate k (d # ds))) =
        (if d \<noteq> None then [start + k] else []) @
        map (\<lambda>(i, v). start + i) (filter (\<lambda>(i, v). v \<noteq> None) (enumerate (Suc k) ds))"
    by simp
  also have "\<dots> = (if d \<noteq> None then [start + k] else []) @
        map (\<lambda>i. start + i) (filter (\<lambda>i. ds ! (i - Suc k) \<noteq> None) ?L)"
    unfolding Cons.IH [of "Suc k"] ..
  also have "\<dots> = map (\<lambda>i. start + i) (filter (\<lambda>i. (d # ds) ! (i - k) \<noteq> None) (k # ?L))"
    unfolding g by simp
  finally show ?case unfolding u .
qed

lemma pasted_rows_picked:
  "map (\<lambda>(i, v). start + i) (filter (\<lambda>(i, v). v \<noteq> None) (enumerate 0 data)) =
   pasted_rows start data"
  using picked_rows [of start 0 data] by (simp add: pasted_rows_def)

lemma distinct_pasted_rows: "distinct (pasted_rows start data)"
  by (simp add: pasted_rows_def distinct_map inj_on_def)

lemma pasted_rows_less: "r \<in> set (pasted_rows start data) \<Longrightarrow> r < start + length data"
  by (auto simp: pasted_rows_def)

lemma texts_replaced_picked:
  "start + k + length data \<le> length t \<Longrightarrow>
   texts_replaced (map (\<lambda>(i, v). start + i) (filter (\<lambda>(i, v). v \<noteq> None) (enumerate k data)))
     (map (\<lambda>(i, v). the v) (filter (\<lambda>(i, v). v \<noteq> None) (enumerate k data))) t =
   pasted (start + k) data t"
proof (induction data arbitrary: k t)
  case Nil
  show ?case by (auto simp: pasted_def intro!: nth_equalityI)
next
  case (Cons d ds)
  show ?case
  proof (cases d)
    case None
    have le: "start + Suc k + length ds \<le> length t" using Cons.prems by simp
    have "pasted (start + Suc k) ds t = pasted (start + k) (d # ds) t"
      unfolding pasted_def
      by (rule map_cong [OF refl]) (auto simp: None nth_Cons' split: option.split)
    then show ?thesis using Cons.IH [OF le] by (simp add: None)
  next
    case (Some v)
    have le: "start + Suc k + length ds \<le> length (t[start + k := v])" using Cons.prems by simp
    have "pasted (start + Suc k) ds (t[start + k := v]) = pasted (start + k) (d # ds) t"
      unfolding pasted_def using Cons.prems
      by (auto simp: Some nth_Cons' nth_list_update split: option.split)
    then show ?thesis using Cons.IH [OF le] by (simp add: Some)
  qed
qed

lemma register_action_texts: "texts_of doc (register_action reg a s) = texts_of doc s"
  by (cases reg; cases doc; simp add: register_action_def texts_of_def)

lemmas register_action_rows = register_action_stacks register_action_texts

lemma group_actions_rows:
  "times_a (group_actions reg n d s) = times_a s"
  "frames (group_actions reg n d s) = frames s"
  "main_texts (group_actions reg n d s) = main_texts s"
  "tran_texts (group_actions reg n d s) = tran_texts s"
  "texts_of doc (group_actions reg n d s) = texts_of doc s"
  by (cases reg; cases doc; simp add: group_actions_def texts_of_def Let_def)+

lemma set_action_description_rows:
  "times_a (set_action_description reg d s) = times_a s"
  "frames (set_action_description reg d s) = frames s"
  "main_texts (set_action_description reg d s) = main_texts s"
  "tran_texts (set_action_description reg d s) = tran_texts s"
  "texts_of doc (set_action_description reg d s) = texts_of doc s"
  by (cases reg; cases doc; simp add: set_action_description_def texts_of_def
      split: list.split)+

lemma set_texts_rows:
  "times_a (set_texts doc t s) = times_a s"
  "frames (set_texts doc t s) = frames s"
  "texts_of doc (set_texts doc t s) = t"
  "texts_of (other_document doc) (set_texts doc t s) = texts_of (other_document doc) s"
  "undoables (set_texts doc t s) = undoables s"
  "redoables (set_texts doc t s) = redoables s"
  "blocked (set_texts doc t s) = blocked s"
  by (cases doc; simp add: set_texts_def texts_of_def other_document_def)+

lemma rows_appended_rows:
  "times_a (rows_appended ts fs k s) = times_a s @ ts"
  "frames (rows_appended ts fs k s) = frames s @ fs"
  "texts_of doc (rows_appended ts fs k s) = texts_of doc s @ replicate k []"
  "undoables (rows_appended ts fs k s) = undoables s"
  "redoables (rows_appended ts fs k s) = redoables s"
  "blocked (rows_appended ts fs k s) = blocked s"
  by (cases doc; simp add: rows_appended_def texts_of_def)+

lemma parallel_texts_of:
  "parallel s = (length (frames s) = length (times_a s)
                 \<and> length (texts_of doc s) = length (times_a s)
                 \<and> length (texts_of (other_document doc) s) = length (times_a s))"
  by (cases doc) (auto simp: parallel_def texts_of_def other_document_def)

lemma replace_texts_explicit:
  assumes "distinct rows" and "\<forall>r\<in>set rows. r < length (texts_of doc s)"
    and "length vals = length rows"
  shows "\<exists>a. reverts a = [Replace_texts rows doc (map ((!) (texts_of doc s)) rows)]
           \<and> replace_texts rows doc vals reg s =
               Inr (register_action reg a
                      (set_texts doc (texts_replaced rows vals (texts_of doc s)) s))"
  unfolding replace_texts_def texts_of_def [symmetric] set_texts_def [symmetric]
    replace_loop_distinct [OF assms]
  apply (simp add: new_action_def)
  apply (rule exI, rule conjI)
   prefer 2
   apply (rule refl)
  apply simp
  done

lemma remove_subtitles_end:
  assumes "parallel s" and "length (times_a s) = n + k"
  shows "\<exists>a. remove_subtitles [n ..< n + k] reg s =
               Inr (register_action reg a (rows_removed (set [n ..< n + k]) s))"
proof -
  have srt: "sort [n ..< n + k] = [n ..< n + k]" by (simp add: sorted_sort_id)
  have d: "sorted_wrt (>) (rev [n ..< n + k])"
    using descending_rev_sort [of "[n ..< n + k]"] unfolding srt by simp
  have b: "\<forall>r\<in>set (rev [n ..< n + k]). r < length (times_a s)" using assms(2) by simp
  show ?thesis
    unfolding remove_subtitles_def Let_def srt
      remove_loop_descending [OF d b assms(1)]
    apply simp
    apply (rule exI, rule refl)
    done
qed

lemma insert_subtitles_end:
  assumes "parallel s" and "0 < k"
  shows "\<exists>a ts fs. reverts a = [Remove_subtitles [length (times_a s) ..< length (times_a s) + k]]
           \<and> length ts = k \<and> length fs = k
           \<and> insert_subtitles calc [length (times_a s) ..< length (times_a s) + k]
                 None None None None reg s =
               Inr (register_action reg a (rows_appended ts fs k s))"
proof -
  let ?n = "length (times_a s)"
  have srt: "sort [?n ..< ?n + k] = [?n ..< ?n + k]" by (simp add: sorted_sort_id)
  from insert_blank_at_end [OF assms, of calc]
  obtain ts fs where l: "length ts = k" "length fs = k"
    and b: "insert_blank calc [?n ..< ?n + k] s = Inr (rows_appended ts fs k s)"
    by blast
  show ?thesis
    unfolding insert_subtitles_def Let_def srt
    apply (simp add: b new_action_def)
    apply (intro exI conjI)
       prefer 4
       apply (rule refl)
      apply (simp_all add: l)
    done
qed

lemma block_rows:
  "times_a (block reg s) = times_a s"
  "frames (block reg s) = frames s"
  "texts_of doc (block reg s) = texts_of doc s"
  "undoables (block reg s) = undoables s"
  "redoables (block reg s) = redoables s"
  "clipboard (block reg s) = clipboard s"
  "times_a (unblock reg s) = times_a s"
  "frames (unblock reg s) = frames s"
  "texts_of doc (unblock reg s) = texts_of doc s"
  "undoables (unblock reg s) = undoables s"
  "redoables (unblock reg s) = redoables s"
  by (cases doc; simp add: block_def unblock_def texts_of_def)+

lemma undoables_update_rows:
  "texts_of doc (s\<lparr>undoables := u\<rparr>) = texts_of doc s"
  by (cases doc; simp add: texts_of_def)

lemma rows_removed_rows:
  "times_a (rows_removed S s) = nths (times_a s) (- S)"
  "frames (rows_removed S s) = nths (frames s) (- S)"
  "texts_of doc (rows_removed S s) = nths (texts_of doc s) (- S)"
  "undoables (rows_removed S s) = undoables s"
  "redoables (rows_removed S s) = redoables s"
  by (cases doc; simp add: rows_removed_def texts_of_def)+

lemma register_action_UNDO:
  "undoables (register_action UNDO a s) = undoables s"
  "redoables (register_action UNDO a s) = a # redoables s"
  by (simp_all add: register_action_def)

lemma group_actions_DO:
  "undoables s = a # b # rest \<Longrightarrow>
   \<exists>g. undoables (group_actions DO 2 d s) = g # rest \<and> description g = d
        \<and> reverts g = reverts a @ reverts b"
  by (simp add: group_actions_def Let_def numeral_2_eq_2)

lemma group_actions_UNDO: "undoables (group_actions UNDO n d s) = undoables s"
  by (simp add: group_actions_def Let_def)

lemma texts_both:
  "texts_of doc s = texts_of doc s' \<Longrightarrow>
   texts_of (other_document doc) s = texts_of (other_document doc) s' \<Longrightarrow>
   main_texts s = main_texts s' \<and> tran_texts s = tran_texts s'"
  by (cases doc) (simp_all add: texts_of_def other_document_def)

lemma removed_appended:
  assumes "xs' = xs @ ys" and "length ys = k" and "length xs = n"
  shows "nths xs' (- set [n ..< n + k]) = xs"
  unfolding assms(1) assms(3) [symmetric] by (rule nths_appended [OF assms(2)])

text \<open>The revert of a paste that extended the project.\<close>

lemma undo_paste_extended:
  fixes s :: "('t::linorder) project"
  assumes p: "parallel s"
    and n: "n = length (times_a s)"
    and lt: "length ts = k" and lf: "length fs = k"
    and rows: "distinct rows" "\<forall>r\<in>set rows. r < n + k" and vals: "length vals = length rows"
    and u: "undoables s' = g # undoables s"
    and g: "reverts g = [Replace_texts rows doc (map ((!) (texts_of doc s @ replicate k [])) rows),
                         Remove_subtitles [n ..< n + k]]"
    and t': "times_a s' = times_a s @ ts" and f': "frames s' = frames s @ fs"
    and d': "texts_of doc s' = texts_replaced rows vals (texts_of doc s @ replicate k [])"
    and o': "texts_of (other_document doc) s' = texts_of (other_document doc) s @ replicate k []"
  shows "\<exists>s''. undo calc s' = Inr s'' \<and> times_a s'' = times_a s \<and> frames s'' = frames s
           \<and> main_texts s'' = main_texts s \<and> tran_texts s'' = tran_texts s
           \<and> undoables s'' = undoables s"
proof -
  let ?E = "texts_of doc s @ replicate k []"
  let ?u0 = "s'\<lparr>undoables := undoables s\<rparr>"
  have ps: "length (frames s) = n" "length (texts_of doc s) = n"
    "length (texts_of (other_document doc) s) = n"
    using p unfolding n parallel_texts_of [of s doc] by simp_all
  have lE: "length ?E = n + k" by (simp add: ps)
  have d0: "texts_of doc ?u0 = texts_replaced rows vals ?E"
    by (simp add: undoables_update_rows d')
  have b0: "\<forall>r\<in>set rows. r < length (texts_of doc ?u0)"
    using rows(2) unfolding d0 length_texts_replaced lE .
  have l0: "length (map ((!) ?E) rows) = length rows" by simp
  from replace_texts_explicit [OF rows(1) b0 l0, of UNDO]
  obtain a1 where r1: "replace_texts rows doc (map ((!) ?E) rows) UNDO ?u0 =
      Inr (register_action UNDO a1
             (set_texts doc (texts_replaced rows (map ((!) ?E) rows) (texts_of doc ?u0)) ?u0))"
    by blast
  let ?u1 = "register_action UNDO a1 (set_texts doc ?E ?u0)"
  have r1': "replace_texts rows doc (map ((!) ?E) rows) UNDO ?u0 = Inr ?u1"
    unfolding r1 d0 texts_replaced_restore [OF rows(1) vals] ..
  have t1: "times_a ?u1 = times_a s @ ts" and f1: "frames ?u1 = frames s @ fs"
    and d1: "texts_of doc ?u1 = ?E"
    and o1: "texts_of (other_document doc) ?u1 = texts_of (other_document doc) s @ replicate k []"
    by (simp_all add: register_action_rows set_texts_rows undoables_update_rows t' f' o')
  have p1: "parallel ?u1"
    unfolding parallel_texts_of [of ?u1 doc] t1 f1 d1 o1
    by (simp add: lt lf ps n [symmetric])
  have n1: "length (times_a ?u1) = n + k" unfolding t1 by (simp add: n lt)
  from remove_subtitles_end [OF p1 n1, of UNDO]
  obtain a2 where r2: "remove_subtitles [n ..< n + k] UNDO ?u1 =
      Inr (register_action UNDO a2 (rows_removed (set [n ..< n + k]) ?u1))"
    by blast
  let ?u2 = "register_action UNDO a2 (rows_removed (set [n ..< n + k]) ?u1)"
  have run: "run_reverts calc (reverts g) UNDO ?u0 = Inr ?u2"
    unfolding g by (simp add: run_revert_def r1' r2)
  have t2: "times_a ?u2 = times_a s"
    using removed_appended [OF t1 lt n [symmetric]]
    by (simp add: register_action_rows rows_removed_rows)
  have f2: "frames ?u2 = frames s"
    using removed_appended [OF f1 lf ps(1)]
    by (simp add: register_action_rows rows_removed_rows)
  have d2: "texts_of doc ?u2 = texts_of doc s"
    using removed_appended [OF d1 length_replicate ps(2)]
    by (simp add: register_action_rows rows_removed_rows)
  have o2: "texts_of (other_document doc) ?u2 = texts_of (other_document doc) s"
    using removed_appended [OF o1 length_replicate ps(3)]
    by (simp add: register_action_rows rows_removed_rows)
  have u2: "undoables ?u2 = undoables s"
    by (simp add: register_action_UNDO rows_removed_rows set_texts_rows)
  note m2 = texts_both [OF d2 o2]
  show ?thesis
    unfolding undo_def u list.case run
    using t2 f2 m2 u2
    by (simp add: Let_def group_actions_rows group_actions_UNDO)
qed

lemma parallel_block: "parallel (block reg s) = parallel s"
  by (simp add: parallel_def block_def)

lemma paste_texts_extends:
  assumes p: "parallel s" and ext: "length (times_a s) < start_row + length (clipboard s)"
    and k: "k = start_row + length (clipboard s) - length (times_a s)"
  shows "\<exists>s' ts fs g vals.
           paste_texts calc start_row doc DO s = Inr (s', pasted_rows start_row (clipboard s))
           \<and> length ts = k \<and> length fs = k
           \<and> length vals = length (pasted_rows start_row (clipboard s))
           \<and> times_a s' = times_a s @ ts \<and> frames s' = frames s @ fs
           \<and> texts_of doc s' =
               texts_replaced (pasted_rows start_row (clipboard s)) vals
                 (texts_of doc s @ replicate k [])
           \<and> texts_of doc s' =
               pasted start_row (clipboard s) (texts_of doc s @ replicate k [])
           \<and> texts_of (other_document doc) s' =
               texts_of (other_document doc) s @ replicate k []
           \<and> undoables s' = g # undoables s \<and> description g = ''Pasting texts''
           \<and> reverts g =
               [Replace_texts (pasted_rows start_row (clipboard s)) doc
                  (map ((!) (texts_of doc s @ replicate k []))
                     (pasted_rows start_row (clipboard s))),
                Remove_subtitles [length (times_a s) ..< length (times_a s) + k]]"
proof -
  let ?n = "length (times_a s)"
  let ?data = "clipboard s"
  let ?rows = "pasted_rows start_row ?data"
  let ?vals = "map (\<lambda>(i, v). the v) (filter (\<lambda>(i, v). v \<noteq> None) (enumerate 0 ?data))"
  let ?E = "texts_of doc s @ replicate k []"
  have kpos: "0 < k" using ext k by simp
  have am: "int (length ?data) - (int ?n - int start_row) = int k"
    using ext k by simp
  have kp: "(0 < int k) = True" using kpos by simp
  have sum: "start_row + length ?data = ?n + k" using ext k by simp
  have ps: "length (texts_of doc s) = ?n"
    using p unfolding parallel_texts_of [of s doc] by simp
  from insert_subtitles_end [of "block DO s" k calc DO] p kpos
  obtain aI ts fs where aI: "reverts aI = [Remove_subtitles [?n ..< ?n + k]]"
    and lt: "length ts = k" and lf: "length fs = k"
    and ins: "insert_subtitles calc [?n ..< ?n + k] None None None None DO (block DO s) =
                Inr (register_action DO aI (rows_appended ts fs k (block DO s)))"
    unfolding parallel_block block_rows by blast
  let ?s1 = "register_action DO aI (rows_appended ts fs k (block DO s))"
  have d1: "texts_of doc ?s1 = ?E"
    by (simp add: register_action_rows rows_appended_rows block_rows)
  have lv: "length ?vals = length ?rows"
    unfolding pasted_rows_picked [symmetric] by simp
  have b1: "\<forall>r\<in>set ?rows. r < length (texts_of doc ?s1)"
    unfolding d1 using pasted_rows_less [of _ start_row ?data] by (simp add: ps sum)
  from replace_texts_explicit [OF distinct_pasted_rows b1 lv, of DO]
  obtain aR where aR: "reverts aR = [Replace_texts ?rows doc (map ((!) (texts_of doc ?s1)) ?rows)]"
    and rep: "replace_texts ?rows doc ?vals DO ?s1 =
                Inr (register_action DO aR
                       (set_texts doc (texts_replaced ?rows ?vals (texts_of doc ?s1)) ?s1))"
    by blast
  let ?s2 = "register_action DO aR (set_texts doc (texts_replaced ?rows ?vals ?E) ?s1)"
  let ?s' = "group_actions DO 2 ''Pasting texts'' (unblock DO ?s2)"
  have rep': "replace_texts ?rows doc ?vals DO ?s1 = Inr ?s2"
    unfolding rep d1 ..
  have pt: "paste_texts calc start_row doc DO s = Inr (?s', ?rows)"
    by (simp only: paste_texts_def Let_def am pasted_rows_picked kp nat_int if_True ins
        sum.case rep')
  have st: "undoables (unblock DO ?s2) = aR # aI # undoables s"
    by (simp add: block_rows register_action_DO set_texts_rows rows_appended_rows)
  from group_actions_DO [OF st, of "''Pasting texts''"]
  obtain g where g: "undoables ?s' = g # undoables s" "description g = ''Pasting texts''"
    "reverts g = reverts aR @ reverts aI"
    by blast
  have le: "start_row + 0 + length ?data \<le> length ?E" by (simp add: ps sum)
  have pasted: "texts_replaced ?rows ?vals ?E = pasted start_row ?data ?E"
    using texts_replaced_picked [OF le] unfolding pasted_rows_picked by simp
  have t': "times_a ?s' = times_a s @ ts" and f': "frames ?s' = frames s @ fs"
    and d': "texts_of doc ?s' = texts_replaced ?rows ?vals ?E"
    and o': "texts_of (other_document doc) ?s' = texts_of (other_document doc) s @ replicate k []"
    by (simp_all add: group_actions_rows block_rows register_action_rows set_texts_rows
        rows_appended_rows)
  have rg: "reverts g = [Replace_texts ?rows doc (map ((!) ?E) ?rows),
                         Remove_subtitles [?n ..< ?n + k]]"
    unfolding g(3) aR aI d1 by simp
  show ?thesis
    apply (rule exI [of _ ?s'], rule exI [of _ ts], rule exI [of _ fs], rule exI [of _ g],
        rule exI [of _ ?vals])
    apply (intro conjI)
    apply (rule pt)
    apply (rule lt)
    apply (rule lf)
    apply (rule lv)
    apply (rule t')
    apply (rule f')
    apply (rule d')
    apply (rule trans [OF d' pasted])
    apply (rule o')
    apply (rule g(1))
    apply (rule g(2))
    apply (rule rg)
    done
qed

lemma set_action_description_DO:
  "undoables s = a # rest \<Longrightarrow>
   undoables (set_action_description DO d s) = a\<lparr>description := d\<rparr> # rest"
  by (simp add: set_action_description_def)

lemma undo_paste_fitting:
  fixes s :: "('t::linorder) project"
  assumes rows: "distinct rows" "\<forall>r\<in>set rows. r < length (texts_of doc s)"
    and vals: "length vals = length rows"
    and u: "undoables s' = g # undoables s"
    and g: "reverts g = [Replace_texts rows doc (map ((!) (texts_of doc s)) rows)]"
    and t': "times_a s' = times_a s" and f': "frames s' = frames s"
    and d': "texts_of doc s' = texts_replaced rows vals (texts_of doc s)"
    and o': "texts_of (other_document doc) s' = texts_of (other_document doc) s"
  shows "\<exists>s''. undo calc s' = Inr s'' \<and> times_a s'' = times_a s \<and> frames s'' = frames s
           \<and> main_texts s'' = main_texts s \<and> tran_texts s'' = tran_texts s
           \<and> undoables s'' = undoables s"
proof -
  let ?T = "texts_of doc s"
  let ?u0 = "s'\<lparr>undoables := undoables s\<rparr>"
  have d0: "texts_of doc ?u0 = texts_replaced rows vals ?T"
    by (simp add: undoables_update_rows d')
  have b0: "\<forall>r\<in>set rows. r < length (texts_of doc ?u0)"
    using rows(2) unfolding d0 length_texts_replaced .
  have l0: "length (map ((!) ?T) rows) = length rows" by simp
  from replace_texts_explicit [OF rows(1) b0 l0, of UNDO]
  obtain a1 where r1: "replace_texts rows doc (map ((!) ?T) rows) UNDO ?u0 =
      Inr (register_action UNDO a1
             (set_texts doc (texts_replaced rows (map ((!) ?T) rows) (texts_of doc ?u0)) ?u0))"
    by blast
  let ?u1 = "register_action UNDO a1 (set_texts doc ?T ?u0)"
  have r1': "replace_texts rows doc (map ((!) ?T) rows) UNDO ?u0 = Inr ?u1"
    unfolding r1 d0 texts_replaced_restore [OF rows(1) vals] ..
  have t1: "times_a ?u1 = times_a s" and f1: "frames ?u1 = frames s"
    and d1: "texts_of doc ?u1 = texts_of doc s"
    and o1: "texts_of (other_document doc) ?u1 = texts_of (other_document doc) s"
    by (simp_all add: register_action_rows set_texts_rows undoables_update_rows t' f' o')
  have u1: "undoables ?u1 = undoables s"
    by (simp add: register_action_UNDO set_texts_rows)
  have run: "run_reverts calc (reverts g) UNDO ?u0 = Inr ?u1"
    unfolding g by (simp add: run_revert_def r1')
  note m1 = texts_both [OF d1 o1]
  show ?thesis
    unfolding undo_def u list.case run
    using t1 f1 m1 u1
    by (simp add: Let_def group_actions_rows group_actions_UNDO)
qed

lemma paste_texts_fits:
  assumes p: "parallel s" and fit: "start_row + length (clipboard s) \<le> length (times_a s)"
  shows "\<exists>s' g vals.
           paste_texts calc start_row doc DO s = Inr (s', pasted_rows start_row (clipboard s))
           \<and> length vals = length (pasted_rows start_row (clipboard s))
           \<and> times_a s' = times_a s \<and> frames s' = frames s
           \<and> texts_of doc s' =
               texts_replaced (pasted_rows start_row (clipboard s)) vals (texts_of doc s)
           \<and> texts_of doc s' = pasted start_row (clipboard s) (texts_of doc s)
           \<and> texts_of (other_document doc) s' = texts_of (other_document doc) s
           \<and> undoables s' = g # undoables s \<and> description g = ''Pasting texts''
           \<and> reverts g =
               [Replace_texts (pasted_rows start_row (clipboard s)) doc
                  (map ((!) (texts_of doc s)) (pasted_rows start_row (clipboard s)))]"
proof -
  let ?n = "length (times_a s)"
  let ?data = "clipboard s"
  let ?rows = "pasted_rows start_row ?data"
  let ?vals = "map (\<lambda>(i, v). the v) (filter (\<lambda>(i, v). v \<noteq> None) (enumerate 0 ?data))"
  let ?T = "texts_of doc s"
  have am: "(0 < int (length ?data) - (int ?n - int start_row)) = False"
    using fit by simp
  have ps: "length ?T = ?n"
    using p unfolding parallel_texts_of [of s doc] by simp
  have lv: "length ?vals = length ?rows"
    unfolding pasted_rows_picked [symmetric] by simp
  have b1: "\<forall>r\<in>set ?rows. r < length ?T"
    unfolding ps using pasted_rows_less [of _ start_row ?data] fit by fastforce
  from replace_texts_explicit [OF distinct_pasted_rows b1 lv, of DO]
  obtain aR where aR: "reverts aR = [Replace_texts ?rows doc (map ((!) ?T) ?rows)]"
    and rep: "replace_texts ?rows doc ?vals DO s =
                Inr (register_action DO aR (set_texts doc (texts_replaced ?rows ?vals ?T) s))"
    by blast
  let ?s2 = "register_action DO aR (set_texts doc (texts_replaced ?rows ?vals ?T) s)"
  let ?s' = "set_action_description DO ''Pasting texts'' ?s2"
  let ?g = "aR\<lparr>description := ''Pasting texts''\<rparr>"
  have pt: "paste_texts calc start_row doc DO s = Inr (?s', ?rows)"
    by (simp only: paste_texts_def Let_def am pasted_rows_picked if_False sum.case rep)
  have st: "undoables ?s2 = aR # undoables s"
    by (simp add: register_action_DO set_texts_rows)
  have g: "undoables ?s' = ?g # undoables s"
    by (rule set_action_description_DO [OF st])
  have le: "start_row + 0 + length ?data \<le> length ?T" using fit by (simp add: ps)
  have pasted: "texts_replaced ?rows ?vals ?T = pasted start_row ?data ?T"
    using texts_replaced_picked [OF le] unfolding pasted_rows_picked by simp
  have t': "times_a ?s' = times_a s" and f': "frames ?s' = frames s"
    and d': "texts_of doc ?s' = texts_replaced ?rows ?vals ?T"
    and o': "texts_of (other_document doc) ?s' = texts_of (other_document doc) s"
    by (simp_all add: set_action_description_rows register_action_rows set_texts_rows)
  show ?thesis
    apply (rule exI [of _ ?s'], rule exI [of _ ?g], rule exI [of _ ?vals])
    apply (intro conjI)
    apply (rule pt)
    apply (rule lv)
    apply (rule t')
    apply (rule f')
    apply (rule d')
    apply (rule trans [OF d' pasted])
    apply (rule o')
    apply (rule g)
    apply simp
    apply (simp add: aR)
    done
qed

text \<open>
  Claim C8. In a project whose four lists have the same length \<open>n\<close>, \<^verbatim>\<open>paste_texts\<close> at
  any start row with any buffer succeeds and returns the rows whose buffer entry is not
  \<^verbatim>\<open>None\<close>. With \<open>k\<close> the number of rows that the buffer needs beyond the end (zero when
  the buffer fits), exactly \<open>k\<close> rows with blank texts are appended to the four lists,
  and in the pasted document the rows whose buffer entry is not \<^verbatim>\<open>None\<close> carry the text
  of the buffer while every other text is as before. One action is pushed on the undo
  stack, described as pasting texts: its reverts are the replacement of the original
  texts and, when rows were appended, after it the removal of the rows \<open>n, \<dots>, n + k - 1\<close>;
  when the buffer fits it is the text replacement alone. A single \<^verbatim>\<open>undo\<close> then succeeds
  and gives back the four lists and the undo stack as they were.
\<close>

theorem paste_texts_one_undo_step:
  fixes s :: "('t::linorder) project"
  assumes "parallel s"
    and "n = length (times_a s)"
    and "k = missing_rows start_row s"
    and "rows = pasted_rows start_row (clipboard s)"
  shows "\<exists>s' ts fs g s''.
           paste_texts calc start_row doc DO s = Inr (s', rows)
           \<and> length ts = k \<and> length fs = k
           \<and> times_a s' = times_a s @ ts \<and> frames s' = frames s @ fs
           \<and> texts_of doc s' = pasted start_row (clipboard s) (texts_of doc s @ replicate k [])
           \<and> texts_of (other_document doc) s' =
               texts_of (other_document doc) s @ replicate k []
           \<and> undoables s' = g # undoables s \<and> description g = ''Pasting texts''
           \<and> reverts g =
               Replace_texts rows doc (map ((!) (texts_of doc s @ replicate k [])) rows)
               # (if 0 < k then [Remove_subtitles [n ..< n + k]] else [])
           \<and> undo calc s' = Inr s''
           \<and> times_a s'' = times_a s \<and> frames s'' = frames s
           \<and> main_texts s'' = main_texts s \<and> tran_texts s'' = tran_texts s
           \<and> undoables s'' = undoables s"
proof (cases "length (times_a s) < start_row + length (clipboard s)")
  case True
  have k: "k = start_row + length (clipboard s) - length (times_a s)"
    using assms(3) by (simp add: missing_rows_def)
  have kpos: "0 < k" using True k by simp
  from paste_texts_extends [OF assms(1) True k, of calc doc]
  obtain s' ts fs g vals where
    pt: "paste_texts calc start_row doc DO s = Inr (s', rows)"
    and l: "length ts = k" "length fs = k" "length vals = length rows"
    and r: "times_a s' = times_a s @ ts" "frames s' = frames s @ fs"
    and d: "texts_of doc s' = texts_replaced rows vals (texts_of doc s @ replicate k [])"
    and d2: "texts_of doc s' = pasted start_row (clipboard s) (texts_of doc s @ replicate k [])"
    and o: "texts_of (other_document doc) s' = texts_of (other_document doc) s @ replicate k []"
    and u: "undoables s' = g # undoables s" "description g = ''Pasting texts''"
    and g: "reverts g = [Replace_texts rows doc (map ((!) (texts_of doc s @ replicate k [])) rows),
                         Remove_subtitles [n ..< n + k]]"
    unfolding assms(2,4) [symmetric] by blast
  have dr: "distinct rows" unfolding assms(4) by (rule distinct_pasted_rows)
  have br: "\<forall>r\<in>set rows. r < n + k"
    unfolding assms(2,4) using pasted_rows_less [of _ start_row "clipboard s"] True k
    by fastforce
  from undo_paste_extended [OF assms(1,2) l(1,2) dr br l(3) u(1) g r d o, of calc]
  obtain s'' where "undo calc s' = Inr s''" "times_a s'' = times_a s" "frames s'' = frames s"
    "main_texts s'' = main_texts s" "tran_texts s'' = tran_texts s"
    "undoables s'' = undoables s"
    by blast
  with pt l r d2 o u g kpos show ?thesis by simp
next
  case False
  then have fit: "start_row + length (clipboard s) \<le> length (times_a s)" by simp
  have k: "k = 0" using assms(3) fit by (simp add: missing_rows_def)
  from paste_texts_fits [OF assms(1) fit, of calc doc]
  obtain s' g vals where
    pt: "paste_texts calc start_row doc DO s = Inr (s', rows)"
    and l: "length vals = length rows"
    and r: "times_a s' = times_a s" "frames s' = frames s"
    and d: "texts_of doc s' = texts_replaced rows vals (texts_of doc s)"
    and d2: "texts_of doc s' = pasted start_row (clipboard s) (texts_of doc s)"
    and o: "texts_of (other_document doc) s' = texts_of (other_document doc) s"
    and u: "undoables s' = g # undoables s" "description g = ''Pasting texts''"
    and g: "reverts g = [Replace_texts rows doc (map ((!) (texts_of doc s)) rows)]"
    unfolding assms(4) [symmetric] by blast
  have dr: "distinct rows" unfolding assms(4) by (rule distinct_pasted_rows)
  have ps: "length (texts_of doc s) = length (times_a s)"
    using assms(1) unfolding parallel_texts_of [of s doc] by simp
  have br: "\<forall>r\<in>set rows. r < length (texts_of doc s)"
    unfolding assms(4) ps using pasted_rows_less [of _ start_row "clipboard s"] fit
    by fastforce
  from undo_paste_fitting [OF dr br l u(1) g r d o, of calc]
  obtain s'' where "undo calc s' = Inr s''" "times_a s'' = times_a s" "frames s'' = frames s"
    "main_texts s'' = main_texts s" "tran_texts s'' = tran_texts s"
    "undoables s'' = undoables s"
    by blast
  with pt r d2 o u g show ?thesis
    unfolding k by simp
qed


theorem paste_texts_one_undo_step_witness:
  "parallel clip_project
   \<and> (\<exists>s' g s''.
         paste_texts example_calc 1 MAIN DO clip_project = Inr (s', [1, 3])
         \<and> length (times_a s') = 4 \<and> length (frames s') = 4
         \<and> take 3 (times_a s') = times_a clip_project
         \<and> main_texts s' = [''one'', ''uno'', ''three'', ''tres'']
         \<and> tran_texts s' = [''eins'', ''zwei'', ''drei'', []]
         \<and> undoables s' = [g]
         \<and> reverts g = [Replace_texts [1, 3] MAIN [''two'', []], Remove_subtitles [3]]
         \<and> undo example_calc s' = Inr s''
         \<and> times_a s'' = times_a clip_project \<and> frames s'' = frames clip_project
         \<and> main_texts s'' = [''one'', ''two'', ''three'']
         \<and> tran_texts s'' = [''eins'', ''zwei'', ''drei''])
   \<and> (\<exists>s' g s''.
         paste_texts example_calc 0 TRAN DO clip_project = Inr (s', [0, 2])
         \<and> times_a s' = times_a clip_project
         \<and> main_texts s' = [''one'', ''two'', ''three'']
         \<and> tran_texts s' = [''uno'', ''zwei'', ''tres'']
         \<and> undoables s' = [g]
         \<and> reverts g = [Replace_texts [0, 2] TRAN [''eins'', ''drei'']]
         \<and> undo example_calc s' = Inr s''
         \<and> tran_texts s'' = [''eins'', ''zwei'', ''drei''])"
proof -
  have p: "parallel clip_project"
    by (simp add: clip_project_def example_project_def parallel_def)
  have a: "(3::nat) = length (times_a clip_project)"
    "(1::nat) = missing_rows 1 clip_project" "(0::nat) = missing_rows 0 clip_project"
    "[1, 3] = pasted_rows 1 (clipboard clip_project)"
    "[0, 2] = pasted_rows 0 (clipboard clip_project)"
    by (simp_all add: clip_project_def example_project_def missing_rows_def pasted_rows_def
        upt_rec)
  have e: "pasted 1 (clipboard clip_project) (texts_of MAIN clip_project @ replicate 1 []) =
           [''one'', ''uno'', ''three'', ''tres'']"
    "texts_of (other_document MAIN) clip_project @ replicate 1 [] =
       [''eins'', ''zwei'', ''drei'', []]"
    "map ((!) (texts_of MAIN clip_project @ replicate 1 [])) [1, 3] = [''two'', []]"
    "pasted 0 (clipboard clip_project) (texts_of TRAN clip_project @ replicate 0 []) =
       [''uno'', ''zwei'', ''tres'']"
    "texts_of (other_document TRAN) clip_project @ replicate 0 [] = [''one'', ''two'', ''three'']"
    "map ((!) (texts_of TRAN clip_project @ replicate 0 [])) [0, 2] = [''eins'', ''drei'']"
    "main_texts clip_project = [''one'', ''two'', ''three'']"
    "tran_texts clip_project = [''eins'', ''zwei'', ''drei'']"
    "undoables clip_project = []"
    by (simp_all add: clip_project_def example_project_def pasted_def texts_of_def
        other_document_def upt_rec)
  have t: "\<And>d s. texts_of MAIN s = main_texts s" "\<And>s. texts_of TRAN s = tran_texts s"
    "other_document MAIN = TRAN" "other_document TRAN = MAIN"
    by (simp_all add: texts_of_def other_document_def)
  from paste_texts_one_undo_step [OF p a(1) a(2) a(4), of example_calc MAIN]
  have x: "\<exists>s' g s''.
         paste_texts example_calc 1 MAIN DO clip_project = Inr (s', [1, 3])
         \<and> length (times_a s') = 4 \<and> length (frames s') = 4
         \<and> take 3 (times_a s') = times_a clip_project
         \<and> main_texts s' = [''one'', ''uno'', ''three'', ''tres'']
         \<and> tran_texts s' = [''eins'', ''zwei'', ''drei'', []]
         \<and> undoables s' = [g]
         \<and> reverts g = [Replace_texts [1, 3] MAIN [''two'', []], Remove_subtitles [3]]
         \<and> undo example_calc s' = Inr s''
         \<and> times_a s'' = times_a clip_project \<and> frames s'' = frames clip_project
         \<and> main_texts s'' = [''one'', ''two'', ''three'']
         \<and> tran_texts s'' = [''eins'', ''zwei'', ''drei'']"
    unfolding e
    apply (elim exE conjE)
    subgoal for s' ts fs g s''
      apply (rule exI [of _ s'], rule exI [of _ g], rule exI [of _ s''])
      apply (simp add: t e a(1) [symmetric] p [unfolded parallel_def])
      done
    done
  from paste_texts_one_undo_step [OF p a(1) a(3) a(5), of example_calc TRAN]
  have y: "\<exists>s' g s''.
         paste_texts example_calc 0 TRAN DO clip_project = Inr (s', [0, 2])
         \<and> times_a s' = times_a clip_project
         \<and> main_texts s' = [''one'', ''two'', ''three'']
         \<and> tran_texts s' = [''uno'', ''zwei'', ''tres'']
         \<and> undoables s' = [g]
         \<and> reverts g = [Replace_texts [0, 2] TRAN [''eins'', ''drei'']]
         \<and> undo example_calc s' = Inr s''
         \<and> tran_texts s'' = [''eins'', ''zwei'', ''drei'']"
    unfolding e
    apply (elim exE conjE)
    subgoal for s' ts fs g s''
      apply (rule exI [of _ s'], rule exI [of _ g], rule exI [of _ s''])
      apply (simp add: t e)
      done
    done
  from p x y show ?thesis by (intro conjI)
qed


section \<open>The order of the rows argument: claim C10\<close>

lemma sort_permutation: "mset rows' = mset rows \<Longrightarrow> sort rows' = sort (rows :: nat list)"
  by (metis properties_for_sort sorted_sort mset_sort)

text \<open>
  Claim C10. \<^verbatim>\<open>insert_subtitles\<close> and \<^verbatim>\<open>remove_subtitles\<close> sort their rows before
  anything else. For a list \<open>rows'\<close> that holds the same indices as \<open>rows\<close>, in whatever
  order, the result of \<^verbatim>\<open>insert_subtitles\<close> is that of \<^verbatim>\<open>_insert_data\<close> (with the data
  lists as they are given), or of \<^verbatim>\<open>_insert_blank\<close> when a data list is missing, run on
  the ascending list of the indices, with the registered revert \<^verbatim>\<open>remove_subtitles\<close> of
  the ascending list; the result of \<^verbatim>\<open>remove_subtitles\<close> is that of the removal loop
  run from the last to the first entry of the ascending list, with the registered
  revert \<^verbatim>\<open>insert_subtitles\<close> of the ascending list and the removed data. An error of
  the loop is the error of the call. So both calls give what the call with the
  ascending list gives: the same project with the same registered action, or the same
  error.
\<close>

theorem rows_order_irrelevant:
  assumes "mset rows' = mset rows"
  shows "sorted (sort rows) \<and> mset (sort rows) = mset rows'
       \<and> insert_subtitles calc rows' (Some ts) (Some fs) (Some ms) (Some trs) reg s =
           (case insert_data (sort rows) ts fs ms trs s of
              Inl e \<Rightarrow> Inl e
            | Inr s1 \<Rightarrow>
                Inr (register_action reg
                       ((new_action [MAIN, TRAN] ''Inserting subtitles''
                           (Remove_subtitles (sort rows)))\<lparr>inserted_rows := sort rows\<rparr>) s1))
       \<and> (times_o = None \<or> frames_o = None \<or> main_o = None \<or> tran_o = None \<longrightarrow>
            insert_subtitles calc rows' times_o frames_o main_o tran_o reg s =
              (case insert_blank calc (sort rows) s of
                 Inl e \<Rightarrow> Inl e
               | Inr s1 \<Rightarrow>
                   Inr (register_action reg
                          ((new_action [MAIN, TRAN] ''Inserting subtitles''
                              (Remove_subtitles (sort rows)))\<lparr>inserted_rows := sort rows\<rparr>) s1)))
       \<and> remove_subtitles rows' reg s =
           (case remove_loop (rev (sort rows)) ([], [], [], []) s of
              Inl e \<Rightarrow> Inl e
            | Inr ((rts, rfs, rms, rtrs), s1) \<Rightarrow>
                Inr (register_action reg
                       ((new_action [MAIN, TRAN] ''Removing subtitles''
                           (Insert_subtitles (sort rows) rts rfs rms rtrs))
                          \<lparr>removed_rows := sort rows\<rparr>) s1))
       \<and> insert_subtitles calc rows' times_o frames_o main_o tran_o reg s =
           insert_subtitles calc (sort rows) times_o frames_o main_o tran_o reg s
       \<and> remove_subtitles rows' reg s = remove_subtitles (sort rows) reg s"
proof -
  have a: "sort rows' = sort rows" by (rule sort_permutation [OF assms])
  have b: "sort (sort rows) = sort rows" by (simp add: sorted_sort_id)
  have c: "times_o = None \<or> frames_o = None \<or> main_o = None \<or> tran_o = None \<Longrightarrow>
           (case (times_o, frames_o, main_o, tran_o) of
              (Some ts, Some fs, Some ms, Some trs) \<Rightarrow> insert_data (sort rows) ts fs ms trs s
            | _ \<Rightarrow> insert_blank calc (sort rows) s) = insert_blank calc (sort rows) s"
    by (auto split: option.split)
  show ?thesis
    unfolding insert_subtitles_def remove_subtitles_def Let_def a b
    using assms c by simp
qed


theorem rows_order_irrelevant_witness:
  "mset [4, 1 :: nat] = mset [1, 4] \<and> mset [2, 1 :: nat] = mset [1, 2]
   \<and> mset [2, 0 :: nat] = mset [0, 2]
   \<and> insert_subtitles example_calc [4, 1]
         (Some [(1500, 1800, 300), (6000, 7000, 1000)]) (Some [(38, 45, 7), (150, 175, 25)])
         (Some [''new'', ''last'']) (Some [''neu'', ''letzt'']) DO example_project =
       Inr (example_project
              \<lparr>times_a := [(0, 1000, 1000), (1500, 1800, 300), (2000, 3000, 1000),
                           (4000, 5000, 1000), (6000, 7000, 1000)],
               frames := [(0, 25, 25), (38, 45, 7), (50, 75, 25), (100, 125, 25),
                          (150, 175, 25)],
               main_texts := [''one'', ''new'', ''two'', ''three'', ''last''],
               tran_texts := [''eins'', ''neu'', ''zwei'', ''drei'', ''letzt''],
               undoables := [(new_action [MAIN, TRAN] ''Inserting subtitles''
                                (Remove_subtitles [1, 4]))\<lparr>inserted_rows := [1, 4]\<rparr>]\<rparr>)
   \<and> insert_subtitles example_calc [2, 1] None None None None DO example_project =
       Inr (example_project
              \<lparr>times_a := [(0, 1000, 1000), (1000, 1500, 500), (1500, 2000, 500),
                           (2000, 3000, 1000), (4000, 5000, 1000)],
               frames := [(0, 25, 25), (25, 38, 13), (38, 50, 12), (50, 75, 25),
                          (100, 125, 25)],
               main_texts := [''one'', [], [], ''two'', ''three''],
               tran_texts := [''eins'', [], [], ''zwei'', ''drei''],
               undoables := [(new_action [MAIN, TRAN] ''Inserting subtitles''
                                (Remove_subtitles [1, 2]))\<lparr>inserted_rows := [1, 2]\<rparr>]\<rparr>)
   \<and> remove_subtitles [2, 0] DO example_project =
       Inr (example_project
              \<lparr>times_a := [(2000, 3000, 1000)],
               frames := [(50, 75, 25)],
               main_texts := [''two''],
               tran_texts := [''zwei''],
               undoables := [(new_action [MAIN, TRAN] ''Removing subtitles''
                                (Insert_subtitles [0, 2]
                                   [(0, 1000, 1000), (4000, 5000, 1000)]
                                   [(0, 25, 25), (100, 125, 25)]
                                   [''one'', ''three''] [''eins'', ''drei'']))
                               \<lparr>removed_rows := [0, 2]\<rparr>]\<rparr>)"
proof -
  have h: "mset [4, 1 :: nat] = mset [1, 4]" "mset [2, 1 :: nat] = mset [1, 2]"
    "mset [2, 0 :: nat] = mset [0, 2]"
    by simp_all
  have srt: "sort [1, 4 :: nat] = [1, 4]" "sort [1, 2 :: nat] = [1, 2]"
    "sort [0, 2 :: nat] = [0, 2]"
    by simp_all
  note a = rows_order_irrelevant [OF h(1), where calc = example_calc and reg = DO
      and s = example_project and ts = "[(1500, 1800, 300), (6000, 7000, 1000)]"
      and fs = "[(38, 45, 7), (150, 175, 25)]" and ms = "[''new'', ''last'']"
      and trs = "[''neu'', ''letzt'']" and times_o = None and frames_o = None
      and main_o = None and tran_o = None, unfolded srt]
  note b = rows_order_irrelevant [OF h(2), where calc = example_calc and reg = DO
      and s = example_project and ts = "[]" and fs = "[]" and ms = "[]" and trs = "[]"
      and times_o = None and frames_o = None and main_o = None and tran_o = None,
      unfolded srt]
  note c = rows_order_irrelevant [OF h(3), where calc = example_calc and reg = DO
      and s = example_project and ts = "[]" and fs = "[]" and ms = "[]" and trs = "[]"
      and times_o = None and frames_o = None and main_o = None and tran_o = None,
      unfolded srt]
  have x: "insert_subtitles example_calc [4, 1]
         (Some [(1500, 1800, 300), (6000, 7000, 1000)]) (Some [(38, 45, 7), (150, 175, 25)])
         (Some [''new'', ''last'']) (Some [''neu'', ''letzt'']) DO example_project =
       Inr (example_project
              \<lparr>times_a := [(0, 1000, 1000), (1500, 1800, 300), (2000, 3000, 1000),
                           (4000, 5000, 1000), (6000, 7000, 1000)],
               frames := [(0, 25, 25), (38, 45, 7), (50, 75, 25), (100, 125, 25),
                          (150, 175, 25)],
               main_texts := [''one'', ''new'', ''two'', ''three'', ''last''],
               tran_texts := [''eins'', ''neu'', ''zwei'', ''drei'', ''letzt''],
               undoables := [(new_action [MAIN, TRAN] ''Inserting subtitles''
                                (Remove_subtitles [1, 4]))\<lparr>inserted_rows := [1, 4]\<rparr>]\<rparr>)"
    using a
    by (simp add: insert_row_def list_insert_def register_action_def example_project_def)
  have y: "insert_subtitles example_calc [2, 1] None None None None DO example_project =
       Inr (example_project
              \<lparr>times_a := [(0, 1000, 1000), (1000, 1500, 500), (1500, 2000, 500),
                           (2000, 3000, 1000), (4000, 5000, 1000)],
               frames := [(0, 25, 25), (25, 38, 13), (38, 50, 12), (50, 75, 25),
                          (100, 125, 25)],
               main_texts := [''one'', [], [], ''two'', ''three''],
               tran_texts := [''eins'', [], [], ''zwei'', ''drei''],
               undoables := [(new_action [MAIN, TRAN] ''Inserting subtitles''
                                (Remove_subtitles [1, 2]))\<lparr>inserted_rows := [1, 2]\<rparr>]\<rparr>)"
    using b
    by (simp add: insert_blank_def insert_row_def list_insert_def register_action_def
          get_mode_def example_project_def example_calc_def py_round_def upt_rec Let_def)
  have z: "remove_subtitles [2, 0] DO example_project =
       Inr (example_project
              \<lparr>times_a := [(2000, 3000, 1000)],
               frames := [(50, 75, 25)],
               main_texts := [''two''],
               tran_texts := [''zwei''],
               undoables := [(new_action [MAIN, TRAN] ''Removing subtitles''
                                (Insert_subtitles [0, 2]
                                   [(0, 1000, 1000), (4000, 5000, 1000)]
                                   [(0, 25, 25), (100, 125, 25)]
                                   [''one'', ''three''] [''eins'', ''drei'']))
                               \<lparr>removed_rows := [0, 2]\<rparr>]\<rparr>)"
    using c
    by (simp add: list_pop_def register_action_def example_project_def)
  from h x y z show ?thesis by (intro conjI)
qed

end
